theory Spec2Isabelle
  imports Complex_Main "HOL-Library.AList"
begin

section \<open>Python values\<close>

text \<open>
  Exceptions of the Python source are values: every function that may raise returns
  \<open>error + 'a\<close>, with \<open>Inl\<close> the exception that escapes.
\<close>

datatype error =
    FileNotFoundError | JSONDecodeError | AttributeError | TypeError | ValueError
  | KeyError | IndexError | ValidationError | RuntimeError | NameError | APIError

fun and_then :: "error + 'a \<Rightarrow> ('a \<Rightarrow> error + 'b) \<Rightarrow> error + 'b" where
  "and_then (Inl e) f = Inl e"
| "and_then (Inr x) f = f x"

text \<open>
  What \<open>json.loads\<close> returns. A Python dict is an association list read through
  \<open>map_of\<close>; numbers are real numbers (the rounding of IEEE doubles is not modelled).
  Strings are sequences of characters with code points below 256.
\<close>

datatype json =
    JNull | JBool bool | JNum real | JStr string
  | JArr "json list" | JObj "(string \<times> json) list"

text \<open>\<open>rec.get(key, default)\<close>: only a dict has the method.\<close>

fun py_get :: "json \<Rightarrow> string \<Rightarrow> json \<Rightarrow> error + json" where
  "py_get (JObj kvs) key dflt = Inr (case map_of kvs key of None \<Rightarrow> dflt | Some v \<Rightarrow> v)"
| "py_get _ key dflt = Inl AttributeError"


text \<open>Truth value of an object, as \<open>if rec:\<close> reads it.\<close>

fun py_truthy :: "json \<Rightarrow> bool" where
  "py_truthy JNull = False"
| "py_truthy (JBool b) = b"
| "py_truthy (JNum r) = (r \<noteq> 0)"
| "py_truthy (JStr s) = (s \<noteq> [])"
| "py_truthy (JArr xs) = (xs \<noteq> [])"
| "py_truthy (JObj kvs) = (kvs \<noteq> [])"

text \<open>A pydantic field declared \<open>str\<close>: any other value is refused.\<close>

fun as_str :: "json \<Rightarrow> error + string" where
  "as_str (JStr s) = Inr s"
| "as_str _ = Inl ValidationError"

subsection \<open>Strings\<close>

text \<open>\<open>str.lower\<close> on code points below 256: A-Z and the capital letters of Latin-1.\<close>

definition py_lower_char :: "char \<Rightarrow> char" where
  "py_lower_char c =
     (let n = (of_char c :: nat)
      in if (65 \<le> n \<and> n \<le> 90) \<or> (192 \<le> n \<and> n \<le> 222 \<and> n \<noteq> 215)
         then char_of (n + 32) else c)"

definition py_lower :: "string \<Rightarrow> string" where
  "py_lower s = map py_lower_char s"

text \<open>\<open>str.isspace\<close> on code points below 256, and \<open>str.strip()\<close>.\<close>

definition py_isspace :: "char \<Rightarrow> bool" where
  "py_isspace c =
     (let n = (of_char c :: nat)
      in (9 \<le> n \<and> n \<le> 13) \<or> (28 \<le> n \<and> n \<le> 32) \<or> n = 133 \<or> n = 160)"

definition py_strip :: "string \<Rightarrow> string" where
  "py_strip s = rev (dropWhile py_isspace (rev (dropWhile py_isspace s)))"

text \<open>\<open>kw in s\<close> for two strings: \<open>kw\<close> occurs in \<open>s\<close> as a contiguous run.\<close>

fun is_substring :: "string \<Rightarrow> string \<Rightarrow> bool" where
  "is_substring kw [] = (kw = [])"
| "is_substring kw (c # cs) = (take (length kw) (c # cs) = kw \<or> is_substring kw cs)"


section \<open>config.py\<close>


definition RERANK_THRESHOLD :: real where
  "RERANK_THRESHOLD = 3.0"

definition EXCLUSION_TITLE_KEYWORDS :: "string list" where
  "EXCLUSION_TITLE_KEYWORDS =
    [''software engineer'', ''software developer'', ''frontend developer'',
     ''backend developer'', ''full stack developer'', ''fullstack developer'',
     ''web developer'', ''mobile developer'', ''devops'', ''sre'',
     ''site reliability'', ''infrastructure engineer'', ''platform engineer'',
     ''cloud engineer'', ''data engineer'', ''etl developer'',
     ''qa engineer'', ''test engineer'', ''quality assurance engineer'',
     ''sdet'', ''automation engineer'', ''product manager'',
     ''it administrator'', ''system administrator'', ''sysadmin'',
     ''network administrator'', ''database administrator'', ''dba'',
     ''release engineer'', ''build engineer'', ''mlops'']"

section \<open>services/vacancy\_store.py\<close>

subsection \<open>is\_excluded\_role\<close>

text \<open>The loop over the keywords returns at the first keyword found in the title.\<close>

fun keyword_loop :: "string list \<Rightarrow> string \<Rightarrow> bool" where
  "keyword_loop [] title_lower = False"
| "keyword_loop (kw # kws) title_lower =
     (if is_substring kw title_lower then True else keyword_loop kws title_lower)"

definition is_excluded_role :: "string \<Rightarrow> string \<Rightarrow> bool" where
  "is_excluded_role title description =
     (let title_lower = py_lower title
      in keyword_loop EXCLUSION_TITLE_KEYWORDS title_lower)"

subsection \<open>The store and its three artifacts\<close>

type_synonym vec = "real list"

text \<open>
  A flat inner-product index holds the vectors added to it; \<open>ntotal\<close> is their number.
\<close>

record faiss_index =
  dim :: nat
  vectors :: "vec list"

definition ntotal :: "faiss_index \<Rightarrow> nat" where
  "ntotal ix = length (vectors ix)"

text \<open>
  The files under the data directory; \<open>None\<close> is a file that does not exist. The
  metadata file is a list of lines, a line being \<open>None\<close> when \<open>json.loads\<close> rejects it.
\<close>

record artifacts =
  faiss_index_file :: "faiss_index option"
  embeddings_file :: "vec list option"
  vacancy_meta_file :: "json option list option"
  unique_titles_file :: "string list option"

record vacancy_store =
  s_records :: "json list"
  s_index :: "faiss_index option"
  s_embeddings :: "vec list option"
  s_title_to_indices :: "(string \<times> nat list) list"
  s_loaded :: bool

definition VacancyStore_init :: vacancy_store where
  "VacancyStore_init =
     \<lparr>s_records = [], s_index = None, s_embeddings = None,
      s_title_to_indices = [], s_loaded = False\<rparr>"

text \<open>\<open>d.setdefault(k, []).append(v)\<close> on a dict that keeps insertion order.\<close>

definition setdefault_append :: "'k \<Rightarrow> 'v \<Rightarrow> ('k \<times> 'v list) list \<Rightarrow> ('k \<times> 'v list) list" where
  "setdefault_append k v d =
     AList.update k (case map_of d k of None \<Rightarrow> [v] | Some vs \<Rightarrow> vs @ [v]) d"

subsection \<open>load\_index\<close>

text \<open>
  A raise leaves the store as it was mutated so far, so the functions return the store
  together with the exception, if any.
\<close>

fun read_meta_lines :: "json option list \<Rightarrow> json list \<Rightarrow> json list \<times> error option" where
  "read_meta_lines [] recs = (recs, None)"
| "read_meta_lines (None # ls) recs = (recs, Some JSONDecodeError)"
| "read_meta_lines (Some v # ls) recs = read_meta_lines ls (recs @ [v])"

text \<open>\<open>rec.get("enriched_job_title", "").lower()\<close>\<close>

definition lower_title :: "json \<Rightarrow> error + string" where
  "lower_title rec =
     and_then (py_get rec ''enriched_job_title'' (JStr []))
       (\<lambda>v. case v of JStr s \<Rightarrow> Inr (py_lower s) | _ \<Rightarrow> Inl AttributeError)"

fun build_title_lookup ::
  "nat \<Rightarrow> json list \<Rightarrow> (string \<times> nat list) list \<Rightarrow> (string \<times> nat list) list \<times> error option" where
  "build_title_lookup i [] d = (d, None)"
| "build_title_lookup i (rec # recs) d =
     (case lower_title rec of
        Inl e \<Rightarrow> (d, Some e)
      | Inr title \<Rightarrow> build_title_lookup (Suc i) recs (setdefault_append title i d))"

definition load_index :: "artifacts \<Rightarrow> vacancy_store \<Rightarrow> vacancy_store \<times> error option" where
  "load_index fs s =
     (if s_loaded s then (s, None)
      else case faiss_index_file fs of
        None \<Rightarrow> (s, Some RuntimeError)
      | Some ix \<Rightarrow>
          let s1 = s\<lparr>s_index := Some ix, s_records := []\<rparr>
          in case vacancy_meta_file fs of
            None \<Rightarrow> (s1, Some FileNotFoundError)
          | Some ls \<Rightarrow>
              (case read_meta_lines ls [] of
                 (recs, Some e) \<Rightarrow> (s1\<lparr>s_records := recs\<rparr>, Some e)
               | (recs, None) \<Rightarrow>
                   let s2 = s1\<lparr>s_records := recs\<rparr>
                   in case embeddings_file fs of
                     None \<Rightarrow> (s2, Some FileNotFoundError)
                   | Some m \<Rightarrow>
                       let s3 = s2\<lparr>s_embeddings := Some m\<rparr>
                       in case build_title_lookup 0 recs (s_title_to_indices s3) of
                         (d, Some e) \<Rightarrow> (s3\<lparr>s_title_to_indices := d\<rparr>, Some e)
                       | (d, None) \<Rightarrow>
                           (s3\<lparr>s_title_to_indices := d, s_loaded := True\<rparr>, None)))"


text \<open>The scan returns the first record whose identifier is the string asked for.\<close>

fun scan_records :: "json list \<Rightarrow> string \<Rightarrow> error + json option" where
  "scan_records [] identifier = Inr None"
| "scan_records (rec # recs) identifier =
     (case py_get rec ''identifier'' JNull of
        Inl e \<Rightarrow> Inl e
      | Inr v \<Rightarrow> if v = JStr identifier then Inr (Some rec) else scan_records recs identifier)"

definition get_record_by_id :: "vacancy_store \<Rightarrow> string \<Rightarrow> error + json option" where
  "get_record_by_id s identifier = scan_records (s_records s) identifier"

subsection \<open>preprocess\<close>

text \<open>
  Step 1. The loop over the lines of the source file stops before line \<open>max_records\<close>
  when \<open>max_records\<close> is given and is not zero.
\<close>

fun read_vacancies :: "int option \<Rightarrow> nat \<Rightarrow> json option list \<Rightarrow> json list \<Rightarrow> error + json list" where
  "read_vacancies max_records i [] raw_records = Inr raw_records"
| "read_vacancies max_records i (line # lines) raw_records =
     (if (case max_records of None \<Rightarrow> False | Some m \<Rightarrow> m \<noteq> 0 \<and> m \<le> int i)
      then Inr raw_records
      else case line of
        None \<Rightarrow> Inl JSONDecodeError
      | Some rec \<Rightarrow> read_vacancies max_records (Suc i) lines (raw_records @ [rec]))"

text \<open>Step 2. \<open>rec.get("enriched_job_title", "").strip()\<close>, kept when it is not empty.\<close>

definition stripped_title :: "json \<Rightarrow> error + string" where
  "stripped_title rec =
     and_then (py_get rec ''enriched_job_title'' (JStr []))
       (\<lambda>v. case v of JStr s \<Rightarrow> Inr (py_strip s) | _ \<Rightarrow> Inl AttributeError)"

fun index_titles ::
  "nat \<Rightarrow> json list \<Rightarrow> (string \<times> nat list) list \<Rightarrow> error + (string \<times> nat list) list" where
  "index_titles i [] d = Inr d"
| "index_titles i (rec # recs) d =
     (case stripped_title rec of
        Inl e \<Rightarrow> Inl e
      | Inr title \<Rightarrow>
          index_titles (Suc i) recs (if title \<noteq> [] then setdefault_append title i d else d))"

text \<open>\<open>v[:n]\<close>: strings and lists can be sliced.\<close>

fun py_slice_to :: "nat \<Rightarrow> json \<Rightarrow> error + json" where
  "py_slice_to n (JStr s) = Inr (JStr (take n s))"
| "py_slice_to n (JArr xs) = Inr (JArr (take n xs))"
| "py_slice_to n _ = Inl TypeError"

text \<open>Step 4, the metadata written for one raw record.\<close>

fun metadata_record :: "json \<Rightarrow> error + json" where
  "metadata_record (JObj kvs) =
     (let field = (\<lambda>k. case map_of kvs k of None \<Rightarrow> JStr [] | Some v \<Rightarrow> v)
      in case py_slice_to 500 (field ''description'') of
        Inl e \<Rightarrow> Inl e
      | Inr description \<Rightarrow>
          Inr (JObj
            [(''identifier'', field ''identifier''),
             (''title'', field ''title''),
             (''enriched_job_title'', field ''enriched_job_title''),
             (''description'', description),
             (''enriched_skills'', field ''enriched_skills''),
             (''enriched_tasks'', field ''enriched_tasks''),
             (''enriched_industry'', field ''enriched_industry''),
             (''enriched_contract_type'', field ''enriched_contract_type''),
             (''country'', field ''country''),
             (''locality'', field ''address_addresslocality'')]))"
| "metadata_record _ = Inl AttributeError"

text \<open>
  Step 4, the inner loop over the records of one title: each appends one metadata
  record and one copy of the title's embedding.
\<close>

fun expand_title ::
  "json list \<Rightarrow> vec \<Rightarrow> nat list \<Rightarrow> json list \<times> vec list \<Rightarrow> error + json list \<times> vec list" where
  "expand_title raw_records emb [] out = Inr out"
| "expand_title raw_records emb (rec_idx # rest) (metadata_records, all_embeddings) =
     (if rec_idx < length raw_records
      then case metadata_record (raw_records ! rec_idx) of
        Inl e \<Rightarrow> Inl e
      | Inr m \<Rightarrow>
          expand_title raw_records emb rest (metadata_records @ [m], all_embeddings @ [emb])
      else Inl IndexError)"

text \<open>Step 4, the outer loop over the unique titles in their order of first occurrence.\<close>

fun expand_titles ::
  "json list \<Rightarrow> vec list \<Rightarrow> nat \<Rightarrow> (string \<times> nat list) list \<Rightarrow> json list \<times> vec list
     \<Rightarrow> error + json list \<times> vec list" where
  "expand_titles raw_records title_embeddings title_idx [] out = Inr out"
| "expand_titles raw_records title_embeddings title_idx ((title, rec_indices) # groups) out =
     (if title_idx < length title_embeddings
      then case expand_title raw_records (title_embeddings ! title_idx) rec_indices out of
        Inl e \<Rightarrow> Inl e
      | Inr out' \<Rightarrow> expand_titles raw_records title_embeddings (Suc title_idx) groups out'
      else Inl IndexError)"

text \<open>
  Steps 2 to 6 on the raw records read. The encoder is outside the repository and is a
  parameter. \<open>np.array\<close> refuses rows of different lengths, and \<open>shape[1]\<close> does not
  exist when there is no row.
\<close>

definition build_artifacts :: "(string list \<Rightarrow> vec list) \<Rightarrow> json list \<Rightarrow> error + artifacts" where
  "build_artifacts embed_titles raw_records =
     (case index_titles 0 raw_records [] of
        Inl e \<Rightarrow> Inl e
      | Inr title_to_record_indices \<Rightarrow>
          let unique_titles = map fst title_to_record_indices;
              title_embeddings = embed_titles unique_titles
          in case expand_titles raw_records title_embeddings 0 title_to_record_indices ([], []) of
            Inl e \<Rightarrow> Inl e
          | Inr (metadata_records, all_embeddings) \<Rightarrow>
              if \<not> list_all (\<lambda>v. length v = length (hd all_embeddings)) all_embeddings
              then Inl ValueError
              else if all_embeddings = [] then Inl IndexError
              else
                let index = \<lparr>dim = length (hd all_embeddings), vectors = all_embeddings\<rparr>
                in Inr \<lparr>faiss_index_file = Some index,
                        embeddings_file = Some all_embeddings,
                        vacancy_meta_file = Some (map Some metadata_records),
                        unique_titles_file = Some unique_titles\<rparr>)"

definition preprocess ::
  "(string list \<Rightarrow> vec list) \<Rightarrow> json option list option \<Rightarrow> int option \<Rightarrow> error + artifacts" where
  "preprocess embed_titles vacancies_file max_records =
     (case vacancies_file of
        None \<Rightarrow> Inl FileNotFoundError
      | Some lines \<Rightarrow>
          and_then (read_vacancies max_records 0 lines []) (build_artifacts embed_titles))"

subsection \<open>search\<close>



section \<open>models/schemas.py\<close>

datatype RetrievalChannel = ch_title | ch_skills | ch_dual

datatype RoleCategory =
    clinical | administrative | analytical | compliance_governance | operational
  | training_change_mgmt | supervisory

datatype InteractionPattern =
    primary_daily_user | periodic_reviewer | exception_handler | oversight_approver
  | configuration_owner

datatype SenioritySignal = entry_level | experienced | senior_specialist | leadership

datatype TransformationType =
    existing_unchanged | existing_augmented | existing_consolidated | newly_created

record RoleTransformation =
  transformation_type :: TransformationType
  tr_rationale :: string

record RoleNeed =
  need_id :: string
  description :: string
  category :: RoleCategory
  interaction_pattern :: InteractionPattern
  domain_expertise :: "string list"
  system_skills :: "string list"
  seniority_signal :: SenioritySignal
  derived_job_titles :: "string list"
  derived_skill_keywords :: "string list"
  source_module :: string
  source_obligations :: "string list"
  transformation :: RoleTransformation

record RetrievalHit =
  vacancy_id :: string
  vacancy_title :: string
  enriched_job_title :: string
  cosine_score :: real
  channel :: RetrievalChannel
  query_used :: string

record ScoringDetail =
  sd_vacancy_id :: string
  sd_enriched_job_title :: string
  role_need_id :: string
  task_score :: real
  domain_score :: real
  seniority_score :: real
  composite_score :: real
  rationale :: string

record RetrievalResult =
  rr_role_need_id :: string
  hits :: "RetrievalHit list"
  scored :: "ScoringDetail list"

record ClusterInfo =
  cluster_id :: int
  ci_canonical_title :: string
  member_titles :: "string list"
  member_vacancy_ids :: "string list"
  centroid_distance :: real

record RecommendedRole =
  canonical_title :: string
  alternative_titles :: "string list"
  mapped_role_needs :: "string list"
  representative_vacancy_ids :: "string list"
  role_category :: RoleCategory
  role_interaction_pattern :: InteractionPattern
  seniority :: SenioritySignal
  confidence :: real
  retrieval_channel :: RetrievalChannel
  role_transformation :: RoleTransformation
  justification :: string

section \<open>pipeline/phase4\_match.py\<close>

subsection \<open>\_dual\_channel\_retrieval\<close>












subsection \<open>\_rerank\<close>

text \<open>One entry of \<open>vacancy_infos\<close>; the values read from the record are not checked.\<close>

record vacancy_info =
  vi_vacancy_id :: string
  vi_enriched_job_title :: json
  vi_enriched_skills :: json
  vi_enriched_tasks :: json
  vi_description_preview :: json

definition vacancy_info_of :: "RetrievalHit \<Rightarrow> json \<Rightarrow> error + vacancy_info" where
  "vacancy_info_of hit rec =
     and_then (py_get rec ''enriched_job_title'' (JStr [])) (\<lambda>ejt.
     and_then (py_get rec ''enriched_skills'' (JStr [])) (\<lambda>sk.
     and_then (py_get rec ''enriched_tasks'' (JStr [])) (\<lambda>ts.
     and_then (py_get rec ''description'' (JStr [])) (\<lambda>d.
     and_then (py_slice_to 300 d) (\<lambda>preview.
       Inr \<lparr>vi_vacancy_id = vacancy_id hit, vi_enriched_job_title = ejt,
            vi_enriched_skills = sk, vi_enriched_tasks = ts,
            vi_description_preview = preview\<rparr>)))))"

text \<open>The loop over the hits of a batch: a hit with no record in the store is skipped.\<close>

fun collect_vacancy_infos ::
  "vacancy_store \<Rightarrow> RetrievalHit list \<Rightarrow> vacancy_info list \<Rightarrow> error + vacancy_info list" where
  "collect_vacancy_infos store [] vacancy_infos = Inr vacancy_infos"
| "collect_vacancy_infos store (hit # batch) vacancy_infos =
     (case get_record_by_id store (vacancy_id hit) of
        Inl e \<Rightarrow> Inl e
      | Inr None \<Rightarrow> collect_vacancy_infos store batch vacancy_infos
      | Inr (Some rec) \<Rightarrow>
          if py_truthy rec
          then case vacancy_info_of hit rec of
            Inl e \<Rightarrow> Inl e
          | Inr vi \<Rightarrow> collect_vacancy_infos store batch (vacancy_infos @ [vi])
          else collect_vacancy_infos store batch vacancy_infos)"

text \<open>
  \<open>float(x)\<close>. Reading a number out of a string is Python's own and is a parameter:
  \<open>float_of_str s\<close> is \<open>None\<close> where \<open>float\<close> raises ValueError.
\<close>

fun py_float :: "(string \<Rightarrow> real option) \<Rightarrow> json \<Rightarrow> error + real" where
  "py_float float_of_str (JNum r) = Inr r"
| "py_float float_of_str (JBool b) = Inr (if b then 1 else 0)"
| "py_float float_of_str (JStr s) =
     (case float_of_str s of None \<Rightarrow> Inl ValueError | Some r \<Rightarrow> Inr r)"
| "py_float float_of_str _ = Inl TypeError"

text \<open>\<open>float(score_data.get(key, 0))\<close>\<close>

definition float_field :: "(string \<Rightarrow> real option) \<Rightarrow> json \<Rightarrow> string \<Rightarrow> error + real" where
  "float_field float_of_str score_data key =
     and_then (py_get score_data key (JNum 0)) (py_float float_of_str)"

text \<open>
  The body of the loop over the score objects: the composite of the three scores, and
  a \<open>ScoringDetail\<close> only when the composite reaches the threshold.
\<close>

definition score_entry ::
  "(string \<Rightarrow> real option) \<Rightarrow> RoleNeed \<Rightarrow> vacancy_info \<Rightarrow> json \<Rightarrow> error + ScoringDetail option" where
  "score_entry float_of_str need vi score_data =
     and_then (float_field float_of_str score_data ''task_score'') (\<lambda>task_s.
     and_then (float_field float_of_str score_data ''domain_score'') (\<lambda>domain_s.
     and_then (float_field float_of_str score_data ''seniority_score'') (\<lambda>seniority_s.
       let composite = 0.40 * task_s + 0.40 * domain_s + 0.20 * seniority_s
       in if composite \<ge> RERANK_THRESHOLD
          then and_then (py_get score_data ''rationale'' (JStr [])) (\<lambda>r.
               and_then (as_str (vi_enriched_job_title vi)) (\<lambda>ejt.
               and_then (as_str r) (\<lambda>r'.
                 Inr (Some \<lparr>sd_vacancy_id = vi_vacancy_id vi,
                            sd_enriched_job_title = ejt,
                            role_need_id = need_id need,
                            task_score = task_s,
                            domain_score = domain_s,
                            seniority_score = seniority_s,
                            composite_score = composite,
                            rationale = r'\<rparr>))))
          else Inr None)))"

text \<open>\<open>for i, score_data in enumerate(result)\<close>, left when \<open>i >= len(vacancy_infos)\<close>.\<close>

fun score_loop ::
  "(string \<Rightarrow> real option) \<Rightarrow> RoleNeed \<Rightarrow> nat \<Rightarrow> json list \<Rightarrow> vacancy_info list
     \<Rightarrow> ScoringDetail list \<Rightarrow> error + ScoringDetail list" where
  "score_loop float_of_str need i [] vacancy_infos out = Inr out"
| "score_loop float_of_str need i (score_data # rest) vacancy_infos out =
     (if i \<ge> length vacancy_infos then Inr out
      else case score_entry float_of_str need (vacancy_infos ! i) score_data of
        Inl e \<Rightarrow> Inl e
      | Inr None \<Rightarrow> score_loop float_of_str need (Suc i) rest vacancy_infos out
      | Inr (Some sd) \<Rightarrow> score_loop float_of_str need (Suc i) rest vacancy_infos (out @ [sd]))"

text \<open>A dict stands for a list of one; anything that is not a list is passed over.\<close>

definition as_score_list :: "json \<Rightarrow> json list option" where
  "as_score_list result =
     (case result of JObj kvs \<Rightarrow> Some [result] | JArr xs \<Rightarrow> Some xs | _ \<Rightarrow> None)"

text \<open>
  One batch. The scoring collaborator is outside the repository: \<open>ask_claude_json n\<close>
  is what its call number \<open>n\<close> of this run returns or raises. The state is the number
  of calls made and the list \<open>scored\<close>.
\<close>

definition rerank_batch ::
  "(string \<Rightarrow> real option) \<Rightarrow> (nat \<Rightarrow> error + json) \<Rightarrow> RoleNeed \<Rightarrow> vacancy_store
     \<Rightarrow> RetrievalHit list \<Rightarrow> nat \<times> ScoringDetail list \<Rightarrow> error + nat \<times> ScoringDetail list" where
  "rerank_batch float_of_str ask_claude_json need store batch st =
     (case collect_vacancy_infos store batch [] of
        Inl e \<Rightarrow> Inl e
      | Inr vacancy_infos \<Rightarrow>
          if vacancy_infos = [] then Inr st
          else case ask_claude_json (fst st) of
            Inl e \<Rightarrow> Inl e
          | Inr result \<Rightarrow>
              (case as_score_list result of
                 None \<Rightarrow> Inr (Suc (fst st), snd st)
               | Some score_objects \<Rightarrow>
                   (case score_loop float_of_str need 0 score_objects vacancy_infos (snd st) of
                      Inl e \<Rightarrow> Inl e
                    | Inr out \<Rightarrow> Inr (Suc (fst st), out))))"



subsection \<open>\_cluster\_into\_roles\<close>

text \<open>
  The global names of the module: what its import statements bind (lines 5 to 27) and
  what it defines itself. A name that is neither local, nor in this list, nor a
  builtin raises NameError where it is evaluated.
\<close>

definition phase4_match_globals :: "string list" where
  "phase4_match_globals =
     [''annotations'', ''json'', ''logging'', ''defaultdict'', ''np'',
      ''AgglomerativeClustering'',
      ''CLUSTER_DISTANCE_THRESHOLD'', ''RERANK_THRESHOLD'', ''RETRIEVAL_TOP_K'',
      ''ClusterInfo'', ''RecommendedRole'', ''RetrievalChannel'', ''RetrievalHit'',
      ''RetrievalResult'', ''RoleCategory'', ''RoleNeed'', ''RoleTransformation'',
      ''ScoringDetail'', ''TransformationType'',
      ''ask_claude_json'', ''embed_skill_lists'', ''embed_titles'',
      ''VacancyStore'', ''is_excluded_role'',
      ''log'', ''run'', ''_dual_channel_retrieval'', ''_apply_exclusion_filter'',
      ''_RERANK_SYSTEM'', ''_rerank'', ''_cluster_into_roles'', ''_most_common'']"

text \<open>The value \<open>v\<close> reached through the global name \<open>name\<close>.\<close>

definition global_name :: "string \<Rightarrow> 'a \<Rightarrow> error + 'a" where
  "global_name name v = (if name \<in> set phase4_match_globals then Inr v else Inl NameError)"

text \<open>The four \<open>defaultdict\<close>s keyed by enriched title; a set of channels is a list.\<close>

record title_maps =
  vacancy_need_map :: "(string \<times> string list) list"
  vacancy_ids_map :: "(string \<times> string list) list"
  vacancy_scores :: "(string \<times> real list) list"
  vacancy_channels :: "(string \<times> RetrievalChannel list) list"

definition dict_get :: "('k \<times> 'v list) list \<Rightarrow> 'k \<Rightarrow> 'v list" where
  "dict_get d k = (case map_of d k of None \<Rightarrow> [] | Some v \<Rightarrow> v)"

definition add_scored :: "RetrievalHit list \<Rightarrow> title_maps \<Rightarrow> ScoringDetail \<Rightarrow> title_maps" where
  "add_scored rr_hits m sd =
     (let title = sd_enriched_job_title sd
      in \<lparr>vacancy_need_map = setdefault_append title (role_need_id sd) (vacancy_need_map m),
          vacancy_ids_map = setdefault_append title (sd_vacancy_id sd) (vacancy_ids_map m),
          vacancy_scores = setdefault_append title (composite_score sd) (vacancy_scores m),
          vacancy_channels =
            foldl (\<lambda>d hit. if vacancy_id hit = sd_vacancy_id sd
                            then setdefault_append title (channel hit) d else d)
                  (vacancy_channels m) rr_hits\<rparr>)"

definition collect_titles :: "RetrievalResult list \<Rightarrow> title_maps" where
  "collect_titles retrieval_results =
     foldl (\<lambda>m rr. foldl (add_scored (hits rr)) m (scored rr))
       \<lparr>vacancy_need_map = [], vacancy_ids_map = [], vacancy_scores = [], vacancy_channels = []\<rparr>
       retrieval_results"

definition pick_channel :: "RetrievalChannel list \<Rightarrow> RetrievalChannel" where
  "pick_channel channels =
     (if ch_dual \<in> set channels then ch_dual
      else if ch_skills \<in> set channels then ch_skills else ch_title)"

text \<open>\<open>np.mean\<close> of a list of scores.\<close>

definition py_mean :: "real list \<Rightarrow> real" where
  "py_mean xs = sum_list xs / real (length xs)"

text \<open>
  \<open>_most_common\<close>: the item counted most often, the first seen among those counted
  equally often.
\<close>

definition most_common :: "'a list \<Rightarrow> 'a \<Rightarrow> 'a" where
  "most_common items dflt =
     (case rev (remdups (rev items)) of
        [] \<Rightarrow> dflt
      | k # ks \<Rightarrow>
          fold (\<lambda>k' best. if count_list items k' > count_list items best then k' else best)
            ks k)"

text \<open>\<open>[need_by_id[nid] for nid in need_ids if nid in need_by_id]\<close>\<close>

definition needs_of :: "RoleNeed list \<Rightarrow> string list \<Rightarrow> RoleNeed list" where
  "needs_of role_needs need_ids =
     List.map_filter (map_of (rev (map (\<lambda>n. (need_id n, n)) role_needs))) need_ids"

definition first_transformation :: "RoleTransformation list \<Rightarrow> RoleTransformation" where
  "first_transformation transformations =
     (case transformations of
        t # ts \<Rightarrow> t
      | [] \<Rightarrow> \<lparr>transformation_type = existing_unchanged, tr_rationale = []\<rparr>)"

text \<open>
  The branch for one title. The order in which \<open>list(set(...))\<close> lists a set of strings
  depends on the hash seed of the process: \<open>list_of_set\<close> is a parameter. The arguments
  of \<open>RecommendedRole(...)\<close> are evaluated in the order written, the two defaults being
  reached through the names \<open>RoleCategory\<close> and \<open>SenioritySignal\<close>.
\<close>

definition single_title_role ::
  "(string list \<Rightarrow> string list) \<Rightarrow> RoleNeed list \<Rightarrow> title_maps \<Rightarrow> string
     \<Rightarrow> error + RecommendedRole list \<times> ClusterInfo list" where
  "single_title_role list_of_set role_needs m title =
     (let need_ids = list_of_set (dict_get (vacancy_need_map m) title);
          channels = dict_get (vacancy_channels m) title;
          avg_score = py_mean (dict_get (vacancy_scores m) title);
          categories = map category (needs_of role_needs need_ids);
          seniorities = map seniority_signal (needs_of role_needs need_ids);
          transformations = map transformation (needs_of role_needs need_ids)
      in and_then (global_name ''RoleCategory'' operational) (\<lambda>default_category.
         and_then (global_name ''SenioritySignal'' experienced) (\<lambda>default_seniority.
           Inr ([\<lparr>canonical_title = title,
                   alternative_titles = [],
                   mapped_role_needs = need_ids,
                   representative_vacancy_ids =
                     take 5 (list_of_set (dict_get (vacancy_ids_map m) title)),
                   role_category = most_common categories default_category,
                   role_interaction_pattern = primary_daily_user,
                   seniority = most_common seniorities default_seniority,
                   confidence = avg_score,
                   retrieval_channel = pick_channel channels,
                   role_transformation = first_transformation transformations,
                   justification = []\<rparr>],
                [\<lparr>cluster_id = 0,
                   ci_canonical_title = title,
                   member_titles = [title],
                   member_vacancy_ids =
                     take 10 (list_of_set (dict_get (vacancy_ids_map m) title)),
                   centroid_distance = 0\<rparr>]))))"

text \<open>
  The vector arithmetic of numpy, on real numbers: the mean of the rows, the Euclidean
  norm, the inner product, and the first position of the least element (\<open>np.argmin\<close>).
\<close>

definition vec_mean :: "vec list \<Rightarrow> vec" where
  "vec_mean vs =
     map (\<lambda>j. sum_list (map (\<lambda>v. v ! j) vs) / real (length vs)) [0..<length (hd vs)]"

definition vec_norm :: "vec \<Rightarrow> real" where
  "vec_norm v = sqrt (sum_list (map (\<lambda>x. x * x) v))"

definition dot :: "vec \<Rightarrow> vec \<Rightarrow> real" where
  "dot a b = sum_list (map (\<lambda>p. fst p * snd p) (zip a b))"

definition argmin :: "real list \<Rightarrow> nat" where
  "argmin xs = length (takeWhile (\<lambda>x. x \<noteq> Min (set xs)) xs)"

text \<open>
  The cosine distance of every member of a cluster to the centroid: the mean of the
  members, divided by its norm.
\<close>

definition centroid_distances :: "vec list \<Rightarrow> real list" where
  "centroid_distances cluster_embeddings =
     (let centroid = vec_mean cluster_embeddings;
          centroid = map (\<lambda>x. x / vec_norm centroid) centroid
      in map (\<lambda>e. 1 - dot e centroid) cluster_embeddings)"

text \<open>\<open>cluster_groups[label].append(idx)\<close> for every title index and its label.\<close>

definition group_labels :: "int list \<Rightarrow> (int \<times> nat list) list" where
  "group_labels labels =
     foldl (\<lambda>d p. setdefault_append (snd p) (fst p) d) [] (zip [0..<length labels] labels)"

text \<open>
  The body of the loop over the clusters: the role and the \<open>ClusterInfo\<close> of one cluster.
  \<open>_most_common(patterns, None)\<close> is \<open>None\<close> when no need is mapped, which the model
  of \<open>RecommendedRole\<close> refuses once all the arguments are evaluated.
\<close>

definition cluster_role ::
  "(string list \<Rightarrow> string list) \<Rightarrow> RoleNeed list \<Rightarrow> title_maps \<Rightarrow> string list \<Rightarrow> vec list
     \<Rightarrow> int \<times> nat list \<Rightarrow> error + RecommendedRole \<times> ClusterInfo" where
  "cluster_role list_of_set role_needs m unique_titles title_embeddings grp =
     (let title_indices = snd grp
      in if \<not> list_all (\<lambda>i. i < length unique_titles \<and> i < length title_embeddings) title_indices
         then Inl IndexError
         else
           let cluster_titles = map (\<lambda>i. unique_titles ! i) title_indices;
               cluster_embeddings = map (\<lambda>i. title_embeddings ! i) title_indices;
               distances = centroid_distances cluster_embeddings;
               canonical_idx = title_indices ! argmin distances;
               canonical_title = unique_titles ! canonical_idx;
               all_need_ids = concat (map (dict_get (vacancy_need_map m)) cluster_titles);
               all_vacancy_ids = concat (map (dict_get (vacancy_ids_map m)) cluster_titles);
               all_scores = concat (map (dict_get (vacancy_scores m)) cluster_titles);
               all_channels = concat (map (dict_get (vacancy_channels m)) cluster_titles);
               need_ids_list = list_of_set all_need_ids;
               categories = map category (needs_of role_needs need_ids_list);
               seniorities = map seniority_signal (needs_of role_needs need_ids_list);
               patterns = map interaction_pattern (needs_of role_needs need_ids_list);
               transformations = map transformation (needs_of role_needs need_ids_list)
           in and_then (global_name ''RoleCategory'' operational) (\<lambda>default_category.
              and_then (global_name ''SenioritySignal'' experienced) (\<lambda>default_seniority.
              and_then (case most_common (map Some patterns) None of
                          None \<Rightarrow> Inl ValidationError | Some p \<Rightarrow> Inr p) (\<lambda>pattern.
                Inr (\<lparr>canonical_title = canonical_title,
                      alternative_titles = filter (\<lambda>t. t \<noteq> canonical_title) cluster_titles,
                      mapped_role_needs = need_ids_list,
                      representative_vacancy_ids = take 5 (list_of_set all_vacancy_ids),
                      role_category = most_common categories default_category,
                      role_interaction_pattern = pattern,
                      seniority = most_common seniorities default_seniority,
                      confidence = (if all_scores \<noteq> [] then py_mean all_scores else 0),
                      retrieval_channel = pick_channel all_channels,
                      role_transformation = first_transformation transformations,
                      justification = []\<rparr>,
                     \<lparr>cluster_id = fst grp,
                      ci_canonical_title = canonical_title,
                      member_titles = cluster_titles,
                      member_vacancy_ids = take 10 (list_of_set all_vacancy_ids),
                      centroid_distance = Min (set distances)\<rparr>)))))"

fun clusters_loop ::
  "(string list \<Rightarrow> string list) \<Rightarrow> RoleNeed list \<Rightarrow> title_maps \<Rightarrow> string list \<Rightarrow> vec list
     \<Rightarrow> (int \<times> nat list) list \<Rightarrow> RecommendedRole list \<times> ClusterInfo list
     \<Rightarrow> error + RecommendedRole list \<times> ClusterInfo list" where
  "clusters_loop list_of_set role_needs m unique_titles title_embeddings [] out = Inr out"
| "clusters_loop list_of_set role_needs m unique_titles title_embeddings (grp # groups) out =
     (case cluster_role list_of_set role_needs m unique_titles title_embeddings grp of
        Inl e \<Rightarrow> Inl e
      | Inr (role, cluster_info) \<Rightarrow>
          clusters_loop list_of_set role_needs m unique_titles title_embeddings groups
            (fst out @ [role], snd out @ [cluster_info]))"

text \<open>
  The encoder and the agglomerative clustering of scikit-learn are outside the
  repository: \<open>fit_predict\<close> gives the cluster label of every row it is given.
  \<open>roles.sort(key=..., reverse=True)\<close> is a stable sort by falling confidence. The
  function never reads its third argument, the store, which is left out.
\<close>

definition cluster_into_roles ::
  "(string list \<Rightarrow> string list) \<Rightarrow> (string list \<Rightarrow> vec list) \<Rightarrow> (vec list \<Rightarrow> int list)
     \<Rightarrow> RoleNeed list \<Rightarrow> RetrievalResult list
     \<Rightarrow> error + RecommendedRole list \<times> ClusterInfo list" where
  "cluster_into_roles list_of_set encode_titles fit_predict role_needs retrieval_results =
     (let m = collect_titles retrieval_results;
          unique_titles = map fst (vacancy_need_map m)
      in if unique_titles = [] then Inr ([], [])
         else if length unique_titles = 1
         then single_title_role list_of_set role_needs m (hd unique_titles)
         else
           let title_embeddings = encode_titles unique_titles;
               labels = fit_predict title_embeddings
           in case clusters_loop list_of_set role_needs m unique_titles title_embeddings
                     (group_labels labels) ([], []) of
             Inl e \<Rightarrow> Inl e
           | Inr (roles, clusters) \<Rightarrow> Inr (sort_key (\<lambda>r. - confidence r) roles, clusters))"

section \<open>Example data\<close>

text \<open>
  Three artifacts that do not fit together: two vectors in the index, three rows in the
  embedding matrix, one metadata record.
\<close>

definition misaligned_artifacts :: artifacts where
  "misaligned_artifacts =
     \<lparr>faiss_index_file = Some \<lparr>dim = 1, vectors = [[1], [1]]\<rparr>,
      embeddings_file = Some [[1], [1], [1]],
      vacancy_meta_file = Some [Some (JObj [(''identifier'', JStr ''v1''),
                                            (''enriched_job_title'', JStr ''Nurse'')])],
      unique_titles_file = None\<rparr>"

text \<open>A source file of four vacancies, the second with a title of two spaces.\<close>

definition example_vacancies :: "json option list" where
  "example_vacancies =
     [Some (JObj [(''identifier'', JStr ''v1''), (''enriched_job_title'', JStr ''Nurse'')]),
      Some (JObj [(''identifier'', JStr ''v2''), (''enriched_job_title'', JStr ''  '')]),
      Some (JObj [(''identifier'', JStr ''v3''), (''enriched_job_title'', JStr ''Clerk'')]),
      Some (JObj [(''identifier'', JStr ''v4''), (''enriched_job_title'', JStr ''Nurse'')])]"

definition example_encoder :: "string list \<Rightarrow> vec list" where
  "example_encoder titles = map (\<lambda>t. if t = ''Nurse'' then [1, 0] else [0, 1]) titles"

text \<open>A store of three vacancies, a role need, three hits and two replies of the scorer.\<close>

definition example_store :: vacancy_store where
  "example_store =
     \<lparr>s_records =
        [JObj [(''identifier'', JStr ''v1''), (''title'', JStr ''Ward nurse''),
               (''enriched_job_title'', JStr ''Nurse''), (''description'', JStr ''Care on the ward'')],
         JObj [(''identifier'', JStr ''v2''), (''title'', JStr ''Desk clerk''),
               (''enriched_job_title'', JStr ''Clerk''), (''description'', JStr ''Files and forms'')],
         JObj [(''identifier'', JStr ''v3''), (''title'', JStr ''Head nurse''),
               (''enriched_job_title'', JStr ''Nurse Lead''), (''description'', JStr ''Leads the ward'')]],
      s_index = Some \<lparr>dim = 2, vectors = [[1, 0], [0, 1], [1, 0]]\<rparr>,
      s_embeddings = Some [[1, 0], [0, 1], [1, 0]],
      s_title_to_indices = [(''nurse'', [0]), (''clerk'', [1]), (''nurse lead'', [2])],
      s_loaded = True\<rparr>"

definition example_need :: RoleNeed where
  "example_need =
     \<lparr>need_id = ''need-1'', description = ''Triage of incoming patients'',
      category = clinical, interaction_pattern = primary_daily_user,
      domain_expertise = [], system_skills = [], seniority_signal = experienced,
      derived_job_titles = [''Nurse''], derived_skill_keywords = [''triage''],
      source_module = [], source_obligations = [],
      transformation = \<lparr>transformation_type = existing_unchanged, tr_rationale = []\<rparr>\<rparr>"

definition example_hit :: "string \<Rightarrow> string \<Rightarrow> real \<Rightarrow> RetrievalHit" where
  "example_hit vid t s =
     \<lparr>vacancy_id = vid, vacancy_title = [], enriched_job_title = t, cosine_score = s,
      channel = ch_title, query_used = ''Nurse''\<rparr>"

definition example_batch :: "RetrievalHit list" where
  "example_batch =
     [example_hit ''v1'' ''Nurse'' 0.9, example_hit ''v2'' ''Clerk'' 0.8,
      example_hit ''v3'' ''Nurse Lead'' 0.7]"

definition example_scores :: "real \<Rightarrow> real \<Rightarrow> real \<Rightarrow> json" where
  "example_scores t d s =
     JObj [(''task_score'', JNum t), (''domain_score'', JNum d), (''seniority_score'', JNum s),
           (''rationale'', JStr ''as scored'')]"


definition example_reply_short :: json where
  "example_reply_short = JArr [example_scores 5 5 5]"


text \<open>
  Scoring details and two retrieval results, with one and with two surviving titles; a
  clustering that puts the rows equal to \<open>[1, 0]\<close> in cluster 0 and the others in 1.
\<close>

definition example_detail :: "string \<Rightarrow> string \<Rightarrow> real \<Rightarrow> ScoringDetail" where
  "example_detail vid t c =
     \<lparr>sd_vacancy_id = vid, sd_enriched_job_title = t, role_need_id = ''need-1'',
      task_score = c, domain_score = c, seniority_score = c, composite_score = c,
      rationale = ''as scored''\<rparr>"

definition example_result_one :: RetrievalResult where
  "example_result_one =
     \<lparr>rr_role_need_id = ''need-1'', hits = example_batch,
      scored = [example_detail ''v1'' ''Nurse'' 4]\<rparr>"

definition example_result_two :: RetrievalResult where
  "example_result_two =
     \<lparr>rr_role_need_id = ''need-1'', hits = example_batch,
      scored = [example_detail ''v1'' ''Nurse'' 4, example_detail ''v2'' ''Clerk'' 3]\<rparr>"

definition example_labels :: "vec list \<Rightarrow> int list" where
  "example_labels rows = map (\<lambda>v. if v = [1, 0] then 0 else 1) rows"

section \<open>Notions used in the statements and proofs\<close>

text \<open>The number of record indices held by the title groups.\<close>

definition group_total :: "(string \<times> nat list) list \<Rightarrow> nat" where
  "group_total d = sum_list (map (\<lambda>g. length (snd g)) d)"

text \<open>
  Inserting one record at position \<open>k\<close> moves the record indices from \<open>k\<close> on by one.
\<close>

definition shift :: "nat \<Rightarrow> nat \<Rightarrow> nat" where
  "shift k j = (if j < k then j else Suc j)"

definition shift_groups :: "nat \<Rightarrow> (string \<times> nat list) list \<Rightarrow> (string \<times> nat list) list" where
  "shift_groups k d = map (\<lambda>g. (fst g, map (shift k) (snd g))) d"

definition indices_below :: "nat \<Rightarrow> ('k \<times> nat list) list \<Rightarrow> bool" where
  "indices_below n d = (\<forall>g \<in> set d. \<forall>j \<in> set (snd g). j < n)"

text \<open>A raw record whose \<open>enriched_job_title\<close> is a string that is not blank.\<close>

definition has_title :: "json \<Rightarrow> bool" where
  "has_title rec = (case stripped_title rec of Inl e \<Rightarrow> False | Inr title \<Rightarrow> title \<noteq> [])"

text \<open>
  The details a score loop appends: those of the pairs of a vacancy and a score object,
  taken in order, for which the loop body yields one. And what holds of a detail that
  was admitted: its composite is the weighted sum and reaches the threshold.
\<close>

definition kept ::
  "(string \<Rightarrow> real option) \<Rightarrow> RoleNeed \<Rightarrow> vacancy_info list \<Rightarrow> json list \<Rightarrow> ScoringDetail list" where
  "kept float_of_str need vis xs =
     concat (map (\<lambda>p. case score_entry float_of_str need (fst p) (snd p) of
                          Inr (Some sd) \<Rightarrow> [sd] | _ \<Rightarrow> [])
                 (zip vis xs))"











text \<open>The distinct enriched titles of the scoring details that survived re-ranking.\<close>

definition surviving_titles :: "RetrievalResult list \<Rightarrow> string set" where
  "surviving_titles retrieval_results =
     set (map sd_enriched_job_title (concat (map scored retrieval_results)))"

section \<open>Properties of the exclusion predicate\<close>

lemma is_substring_iff: "is_substring kw s \<longleftrightarrow> (\<exists>p q. s = p @ kw @ q)"
proof (induction s)
  case Nil
  then show ?case by auto
next
  case (Cons c cs)
  show ?case
  proof
    assume "is_substring kw (c # cs)"
    then consider "take (length kw) (c # cs) = kw" | "is_substring kw cs" by auto
    then show "\<exists>p q. c # cs = p @ kw @ q"
    proof cases
      case 1
      then have "c # cs = [] @ kw @ drop (length kw) (c # cs)"
        by (metis append_Nil append_take_drop_id)
      then show ?thesis by blast
    next
      case 2
      then obtain p q where "cs = p @ kw @ q" using Cons.IH by blast
      then have "c # cs = (c # p) @ kw @ q" by simp
      then show ?thesis by blast
    qed
  next
    assume "\<exists>p q. c # cs = p @ kw @ q"
    then obtain p q where pq: "c # cs = p @ kw @ q" by blast
    show "is_substring kw (c # cs)"
    proof (cases p)
      case Nil
      then have "take (length kw) (c # cs) = kw" using pq by simp
      then show ?thesis by simp
    next
      case (Cons a p')
      then have "cs = p' @ kw @ q" using pq by simp
      then have "is_substring kw cs" using Cons.IH by blast
      then show ?thesis by simp
    qed
  qed
qed

lemma keyword_loop_iff: "keyword_loop kws t \<longleftrightarrow> (\<exists>kw \<in> set kws. is_substring kw t)"
  by (induction kws) auto

text \<open>
  C7. \<open>is_excluded_role\<close> is true exactly when the lowercased title contains one of
  the configured keywords as a substring, and the description never changes the result.
\<close>

theorem is_excluded_role_title_only:
  "(is_excluded_role title desc \<longleftrightarrow>
      (\<exists>kw \<in> set EXCLUSION_TITLE_KEYWORDS. \<exists>p q. py_lower title = p @ kw @ q))
   \<and> is_excluded_role title desc = is_excluded_role title desc'"
  by (simp add: is_excluded_role_def keyword_loop_iff is_substring_iff)

theorem is_excluded_role_title_only_witness:
  "(\<exists>kw \<in> set EXCLUSION_TITLE_KEYWORDS.
      \<exists>p q. py_lower ''Senior DevOps Lead'' = p @ kw @ q)
   \<and> is_excluded_role ''Senior DevOps Lead'' ''keeps the pipelines green''
     = is_excluded_role ''Senior DevOps Lead'' []
   \<and> \<not> is_excluded_role ''Cardiac Care Coordinator'' ''works with software engineers''"
proof -
  have a: "is_excluded_role ''Senior DevOps Lead'' ''keeps the pipelines green''"
    by code_simp
  have b: "\<not> is_excluded_role ''Cardiac Care Coordinator'' ''works with software engineers''"
    by code_simp
  show ?thesis
    using a b
      is_excluded_role_title_only [of "''Senior DevOps Lead''" "''keeps the pipelines green''" "[]"]
    by blast
qed

section \<open>Loading the store\<close>

lemma read_meta_lines_parsed: "read_meta_lines (map Some recs) acc = (acc @ recs, None)"
  by (induction recs arbitrary: acc) auto

lemma build_title_lookup_ok:
  "\<forall>r \<in> set recs. \<exists>t. lower_title r = Inr t \<Longrightarrow> \<exists>d'. build_title_lookup i recs d = (d', None)"
proof (induction recs arbitrary: i d)
  case Nil
  then show ?case by simp
next
  case (Cons r recs)
  then obtain t where "lower_title r = Inr t" by auto
  then show ?case using Cons by simp
qed

text \<open>
  C1, as the code has it. On a store that is not loaded yet, \<open>load_index\<close> raises when
  one of the three artifacts is absent. It never compares row counts: when the three
  artifacts are present, every metadata line parses and every record is an object whose
  \<open>enriched_job_title\<close> is absent or a string, the load completes and the store holds
  the index, the records and the embeddings as they were read, whatever their sizes.
\<close>

theorem load_index_no_alignment_check:
  assumes "\<not> s_loaded s"
  shows "(faiss_index_file fs = None \<or> vacancy_meta_file fs = None \<or> embeddings_file fs = None
            \<longrightarrow> snd (load_index fs s) \<noteq> None)
       \<and> (faiss_index_file fs = Some ix \<and> vacancy_meta_file fs = Some (map Some recs)
            \<and> embeddings_file fs = Some m \<and> (\<forall>r \<in> set recs. \<exists>t. lower_title r = Inr t)
            \<longrightarrow> snd (load_index fs s) = None
                \<and> s_loaded (fst (load_index fs s))
                \<and> s_index (fst (load_index fs s)) = Some ix
                \<and> s_records (fst (load_index fs s)) = recs
                \<and> s_embeddings (fst (load_index fs s)) = Some m)"
proof (intro conjI impI)
  assume "faiss_index_file fs = None \<or> vacancy_meta_file fs = None \<or> embeddings_file fs = None"
  then show "snd (load_index fs s) \<noteq> None"
    using assms
    by (auto simp: load_index_def Let_def split: option.splits prod.splits)
next
  assume a: "faiss_index_file fs = Some ix \<and> vacancy_meta_file fs = Some (map Some recs)
            \<and> embeddings_file fs = Some m \<and> (\<forall>r \<in> set recs. \<exists>t. lower_title r = Inr t)"
  then obtain d' where d': "build_title_lookup 0 recs (s_title_to_indices s) = (d', None)"
    using build_title_lookup_ok by blast
  have r: "read_meta_lines (map Some recs) [] = (recs, None)"
    using read_meta_lines_parsed [of recs "[]"] by simp
  show "snd (load_index fs s) = None"
   and "s_loaded (fst (load_index fs s))"
   and "s_index (fst (load_index fs s)) = Some ix"
   and "s_records (fst (load_index fs s)) = recs"
   and "s_embeddings (fst (load_index fs s)) = Some m"
    using assms a d' r by (simp_all add: load_index_def Let_def)
qed

theorem load_index_no_alignment_check_witness:
  "snd (load_index (misaligned_artifacts\<lparr>embeddings_file := None\<rparr>) VacancyStore_init) \<noteq> None
   \<and> snd (load_index misaligned_artifacts VacancyStore_init) = None
   \<and> s_records (fst (load_index misaligned_artifacts VacancyStore_init))
       = [JObj [(''identifier'', JStr ''v1''), (''enriched_job_title'', JStr ''Nurse'')]]
   \<and> s_embeddings (fst (load_index misaligned_artifacts VacancyStore_init))
       = Some [[1], [1], [1]]"
proof -
  have fresh: "\<not> s_loaded VacancyStore_init"
    by (simp add: VacancyStore_init_def)
  have absent: "embeddings_file (misaligned_artifacts\<lparr>embeddings_file := None\<rparr>) = None"
    by simp
  have present:
    "faiss_index_file misaligned_artifacts = Some \<lparr>dim = 1, vectors = [[1], [1]]\<rparr>
     \<and> vacancy_meta_file misaligned_artifacts
         = Some (map Some [JObj [(''identifier'', JStr ''v1''),
                                 (''enriched_job_title'', JStr ''Nurse'')]])
     \<and> embeddings_file misaligned_artifacts = Some [[1], [1], [1]]
     \<and> (\<forall>r \<in> set [JObj [(''identifier'', JStr ''v1''), (''enriched_job_title'', JStr ''Nurse'')]].
           \<exists>t. lower_title r = Inr t)"
    by (simp add: misaligned_artifacts_def lower_title_def)
  show ?thesis
    using load_index_no_alignment_check [OF fresh, of "misaligned_artifacts\<lparr>embeddings_file := None\<rparr>"]
      load_index_no_alignment_check [OF fresh, of misaligned_artifacts] absent present
    by blast
qed

text \<open>
  The misaligned artifacts load without an exception, and
  the loaded store has one record, three embedding rows and an index of two vectors.
\<close>

theorem load_index_misaligned_counterexample:
  "snd (load_index misaligned_artifacts VacancyStore_init) = None
   \<and> s_loaded (fst (load_index misaligned_artifacts VacancyStore_init))
   \<and> length (s_records (fst (load_index misaligned_artifacts VacancyStore_init))) = 1
   \<and> map_option length (s_embeddings (fst (load_index misaligned_artifacts VacancyStore_init)))
       = Some 3
   \<and> map_option ntotal (s_index (fst (load_index misaligned_artifacts VacancyStore_init)))
       = Some 2"
  by code_simp

section \<open>Building the artifacts\<close>

lemma expand_title_length:
  "expand_title raw emb idxs (ms, es) = Inr (ms', es') \<Longrightarrow>
     length ms' = length ms + length idxs \<and> es' = es @ replicate (length idxs) emb"
proof (induction idxs arbitrary: ms es)
  case Nil
  then show ?case by simp
next
  case (Cons j idxs)
  from Cons.prems obtain m where m: "metadata_record (raw ! j) = Inr m"
    and rest: "expand_title raw emb idxs (ms @ [m], es @ [emb]) = Inr (ms', es')"
    by (auto split: if_splits sum.splits)
  from Cons.IH [OF rest] show ?case by (simp add: replicate_app_Cons_same)
qed

lemma expand_titles_length:
  "expand_titles raw te ti d (ms, es) = Inr (ms', es') \<Longrightarrow>
     length ms' = length ms + group_total d \<and> length es' = length es + group_total d"
proof (induction d arbitrary: ti ms es)
  case Nil
  then show ?case by (simp add: group_total_def)
next
  case (Cons g d)
  obtain t idxs where g: "g = (t, idxs)" by (cases g)
  from Cons.prems g obtain ms1 es1 where
    one: "expand_title raw (te ! ti) idxs (ms, es) = Inr (ms1, es1)"
    and rest: "expand_titles raw te (Suc ti) d (ms1, es1) = Inr (ms', es')"
    by (auto split: if_splits sum.splits)
  from expand_title_length [OF one] Cons.IH [OF rest] g show ?case
    by (simp add: group_total_def)
qed

lemma preprocess_success:
  assumes "preprocess embed_titles vacancies_file max_records = Inr fs"
  shows "\<exists>lines raw d ms es.
           vacancies_file = Some lines
         \<and> read_vacancies max_records 0 lines [] = Inr raw
         \<and> index_titles 0 raw [] = Inr d
         \<and> expand_titles raw (embed_titles (map fst d)) 0 d ([], []) = Inr (ms, es)
         \<and> fs = \<lparr>faiss_index_file = Some \<lparr>dim = length (hd es), vectors = es\<rparr>,
                  embeddings_file = Some es,
                  vacancy_meta_file = Some (map Some ms),
                  unique_titles_file = Some (map fst d)\<rparr>"
proof -
  from assms obtain lines raw where l: "vacancies_file = Some lines"
    and r: "read_vacancies max_records 0 lines [] = Inr raw"
    and b: "build_artifacts embed_titles raw = Inr fs"
    by (cases vacancies_file; cases "read_vacancies max_records 0 (the vacancies_file) []")
       (auto simp: preprocess_def)
  from b obtain d where d: "index_titles 0 raw [] = Inr d"
    by (auto simp: build_artifacts_def split: sum.splits)
  from b d obtain ms es where
    e: "expand_titles raw (embed_titles (map fst d)) 0 d ([], []) = Inr (ms, es)"
    by (auto simp: build_artifacts_def Let_def split: sum.splits)
  from b d e have
    "fs = \<lparr>faiss_index_file = Some \<lparr>dim = length (hd es), vectors = es\<rparr>,
           embeddings_file = Some es,
           vacancy_meta_file = Some (map Some ms),
           unique_titles_file = Some (map fst d)\<rparr>"
    by (auto simp: build_artifacts_def Let_def split: if_splits)
  with l r d e show ?thesis by blast
qed

text \<open>
  C6. When \<open>preprocess\<close> completes, the three artifacts it wrote are aligned by row: the
  metadata file has as many records as the embedding matrix has rows, the index holds
  as many vectors, and the vectors of the index are the rows of the matrix.
\<close>

theorem preprocess_row_aligned:
  assumes "preprocess embed_titles vacancies_file max_records = Inr fs"
  shows "\<exists>ix m ls. faiss_index_file fs = Some ix \<and> embeddings_file fs = Some m
           \<and> vacancy_meta_file fs = Some ls
           \<and> length ls = length m \<and> length m = ntotal ix \<and> vectors ix = m"
proof -
  from preprocess_success [OF assms] obtain raw d ms es where
    e: "expand_titles raw (embed_titles (map fst d)) 0 d ([], []) = Inr (ms, es)"
    and fs: "fs = \<lparr>faiss_index_file = Some \<lparr>dim = length (hd es), vectors = es\<rparr>,
                   embeddings_file = Some es,
                   vacancy_meta_file = Some (map Some ms),
                   unique_titles_file = Some (map fst d)\<rparr>"
    by blast
  from expand_titles_length [OF e] have "length ms = length es" by simp
  with fs show ?thesis by (simp add: ntotal_def)
qed

theorem preprocess_row_aligned_witness:
  "\<exists>fs ix m ls. preprocess example_encoder (Some example_vacancies) None = Inr fs
     \<and> faiss_index_file fs = Some ix \<and> embeddings_file fs = Some m
     \<and> vacancy_meta_file fs = Some ls
     \<and> length ls = length m \<and> length m = ntotal ix \<and> vectors ix = m"
proof -
  have "\<not> isl (preprocess example_encoder (Some example_vacancies) None)"
    by code_simp
  then obtain fs where fs: "preprocess example_encoder (Some example_vacancies) None = Inr fs"
    by (cases "preprocess example_encoder (Some example_vacancies) None") auto
  from preprocess_row_aligned [OF fs] fs show ?thesis by blast
qed

section \<open>Records without a title\<close>

lemma update_in_set:
  "g \<in> set (AList.update k v d) \<Longrightarrow> g \<in> set d \<or> g = (k, v)"
  by (induction d) (auto split: if_splits)

lemma map_of_in_set: "map_of d k = Some v \<Longrightarrow> (k, v) \<in> set d"
  by (rule map_of_SomeD)

lemma update_map_values:
  "AList.update k (f v) (map (\<lambda>g. (fst g, f (snd g))) d)
     = map (\<lambda>g. (fst g, f (snd g))) (AList.update k v d)"
  by (induction d) auto

lemma map_of_map_values:
  "map_of (map (\<lambda>g. (fst g, f (snd g))) d) k = map_option f (map_of d k)"
  by (induction d) auto

lemma setdefault_append_shift:
  "setdefault_append t (shift k j) (shift_groups k d) = shift_groups k (setdefault_append t j d)"
proof -
  have "(case map_option (map (shift k)) (map_of d t) of None \<Rightarrow> [shift k j] | Some vs \<Rightarrow> vs @ [shift k j])
        = map (shift k) (case map_of d t of None \<Rightarrow> [j] | Some vs \<Rightarrow> vs @ [j])"
    by (cases "map_of d t") auto
  then show ?thesis
    unfolding setdefault_append_def shift_groups_def
    by (simp add: map_of_map_values update_map_values)
qed

lemma setdefault_append_total:
  "group_total (setdefault_append t j d) = Suc (group_total d)"
proof (induction d)
  case Nil
  then show ?case by (simp add: setdefault_append_def group_total_def)
next
  case (Cons g d)
  then show ?case
    by (cases g) (auto simp: setdefault_append_def group_total_def)
qed

lemma index_titles_shift:
  "k \<le> i \<Longrightarrow> index_titles (Suc i) recs (shift_groups k d)
     = map_sum id (shift_groups k) (index_titles i recs d)"
proof (induction recs arbitrary: i d)
  case Nil
  then show ?case by simp
next
  case (Cons r recs)
  show ?case
  proof (cases "stripped_title r")
    case (Inl e)
    then show ?thesis by simp
  next
    case (Inr title)
    from Cons.prems have s: "shift k i = Suc i" by (simp add: shift_def)
    have "k \<le> Suc i" using Cons.prems by simp
    from Cons.IH [OF this] Inr s show ?thesis
      using setdefault_append_shift [of title k i d] by simp
  qed
qed

lemma index_titles_append:
  "index_titles i (xs @ ys) d =
     (case index_titles i xs d of Inl e \<Rightarrow> Inl e | Inr d1 \<Rightarrow> index_titles (i + length xs) ys d1)"
  by (induction xs arbitrary: i d) (auto split: sum.splits)

lemma setdefault_append_below:
  "indices_below n d \<Longrightarrow> j < n \<Longrightarrow> indices_below n (setdefault_append t j d)"
  unfolding indices_below_def setdefault_append_def
  by (auto dest!: update_in_set map_of_SomeD split: option.splits)

lemma indices_below_mono: "indices_below n d \<Longrightarrow> n \<le> n' \<Longrightarrow> indices_below n' d"
  unfolding indices_below_def by fastforce

lemma index_titles_below:
  "index_titles i recs d = Inr d' \<Longrightarrow> indices_below i d \<Longrightarrow> indices_below (i + length recs) d'"
proof (induction recs arbitrary: i d)
  case Nil
  then show ?case by simp
next
  case (Cons r recs)
  from Cons.prems(1) obtain title where t: "stripped_title r = Inr title"
    and rest: "index_titles (Suc i) recs (if title \<noteq> [] then setdefault_append title i d else d) = Inr d'"
    by (auto split: sum.splits)
  have "indices_below (Suc i) (if title \<noteq> [] then setdefault_append title i d else d)"
    using Cons.prems(2) setdefault_append_below [of "Suc i" d i title]
      indices_below_mono [of i d "Suc i"] by simp
  from Cons.IH [OF rest this] show ?case by simp
qed

lemma shift_groups_below: "indices_below k d \<Longrightarrow> shift_groups k d = d"
  unfolding indices_below_def shift_groups_def shift_def
  by (induction d) (auto simp: map_idI)

lemma index_titles_insert_blank:
  assumes "stripped_title b = Inr []"
  shows "index_titles 0 (xs @ b # ys) [] =
           map_sum id (shift_groups (length xs)) (index_titles 0 (xs @ ys) [])"
proof (cases "index_titles 0 xs []")
  case (Inl e)
  then show ?thesis by (simp add: index_titles_append)
next
  case (Inr d1)
  have "indices_below 0 []" by (simp add: indices_below_def)
  from index_titles_below [OF Inr this] have "shift_groups (length xs) d1 = d1"
    using shift_groups_below by simp
  then have "index_titles (Suc (length xs)) ys d1
               = map_sum id (shift_groups (length xs)) (index_titles (length xs) ys d1)"
    using index_titles_shift [of "length xs" "length xs" ys d1] by simp
  with Inr assms show ?thesis by (simp add: index_titles_append)
qed

lemma expand_title_insert:
  "expand_title (xs @ b # ys) emb (map (shift (length xs)) idxs) out
     = expand_title (xs @ ys) emb idxs out"
proof (induction idxs arbitrary: out)
  case Nil
  then show ?case by simp
next
  case (Cons j idxs)
  obtain ms es where out: "out = (ms, es)" by (cases out)
  have a: "shift (length xs) j < length (xs @ b # ys) \<longleftrightarrow> j < length (xs @ ys)"
    by (auto simp: shift_def)
  have b: "j < length (xs @ ys) \<Longrightarrow> (xs @ b # ys) ! shift (length xs) j = (xs @ ys) ! j"
    by (auto simp: shift_def nth_append Suc_diff_le)
  show ?case
    using a b Cons.IH out by (auto split: sum.splits)
qed

lemma expand_titles_insert:
  "expand_titles (xs @ b # ys) te ti (shift_groups (length xs) d) out
     = expand_titles (xs @ ys) te ti d out"
proof (induction d arbitrary: ti out)
  case Nil
  then show ?case by (simp add: shift_groups_def)
next
  case (Cons g d)
  obtain t idxs where g: "g = (t, idxs)" by (cases g)
  have "shift_groups (length xs) (g # d) = (t, map (shift (length xs)) idxs) # shift_groups (length xs) d"
    using g by (simp add: shift_groups_def)
  then show ?case
    using Cons.IH g by (simp add: expand_title_insert split: sum.splits)
qed

lemma shift_groups_keys: "map fst (shift_groups k d) = map fst d"
  by (simp add: shift_groups_def comp_def)

lemma build_artifacts_insert_blank:
  assumes "stripped_title b = Inr []"
  shows "build_artifacts enc (xs @ b # ys) = build_artifacts enc (xs @ ys)"
proof (cases "index_titles 0 (xs @ ys) []")
  case (Inl e)
  then show ?thesis
    using index_titles_insert_blank [OF assms, of xs ys] by (simp add: build_artifacts_def)
next
  case (Inr d)
  then have "index_titles 0 (xs @ b # ys) [] = Inr (shift_groups (length xs) d)"
    using index_titles_insert_blank [OF assms, of xs ys] by simp
  with Inr show ?thesis
    by (simp add: build_artifacts_def shift_groups_keys expand_titles_insert)
qed

lemma read_vacancies_all:
  "read_vacancies None i ls acc =
     (if None \<in> set ls then Inl JSONDecodeError else Inr (acc @ map the ls))"
proof (induction ls arbitrary: i acc)
  case Nil
  then show ?case by simp
next
  case (Cons l ls)
  then show ?case by (cases l) auto
qed

lemma preprocess_insert_blank:
  assumes "stripped_title b = Inr []"
  shows "preprocess enc (Some (l1 @ Some b # l2)) None = preprocess enc (Some (l1 @ l2)) None"
  using build_artifacts_insert_blank [OF assms, of enc "map the l1" "map the l2"]
  by (simp add: preprocess_def read_vacancies_all)

lemma py_strip_Nil: "py_strip [] = []"
  by (simp add: py_strip_def)

lemma has_title_iff:
  "has_title r \<longleftrightarrow>
     (\<exists>t. py_get r ''enriched_job_title'' (JStr []) = Inr (JStr t) \<and> t \<noteq> [] \<and> py_strip t \<noteq> [])"
proof (cases "py_get r ''enriched_job_title'' (JStr [])")
  case (Inl e)
  then show ?thesis by (simp add: has_title_def stripped_title_def)
next
  case (Inr v)
  then show ?thesis
    by (cases v) (auto simp: has_title_def stripped_title_def py_strip_Nil)
qed

lemma metadata_record_title:
  "metadata_record r = Inr m \<Longrightarrow> stripped_title m = stripped_title r"
proof (cases r)
  case (JObj kvs)
  assume "metadata_record r = Inr m"
  with JObj show ?thesis
    by (cases "map_of kvs ''enriched_job_title''")
       (auto simp: stripped_title_def Let_def split: sum.splits)
qed auto

lemma index_titles_has_title:
  "index_titles (length pre) recs d = Inr d' \<Longrightarrow>
   (\<forall>g \<in> set d. \<forall>j \<in> set (snd g). j < length pre \<and> has_title (pre ! j)) \<Longrightarrow>
   (\<forall>g \<in> set d'. \<forall>j \<in> set (snd g). j < length (pre @ recs) \<and> has_title ((pre @ recs) ! j))"
proof (induction recs arbitrary: pre d)
  case Nil
  then show ?case by simp
next
  case (Cons r recs)
  from Cons.prems(1) obtain title where t: "stripped_title r = Inr title"
    and rest: "index_titles (length (pre @ [r])) recs
                 (if title \<noteq> [] then setdefault_append title (length pre) d else d) = Inr d'"
    by (auto split: sum.splits)
  have "\<forall>g \<in> set (if title \<noteq> [] then setdefault_append title (length pre) d else d).
          \<forall>j \<in> set (snd g). j < length (pre @ [r]) \<and> has_title ((pre @ [r]) ! j)"
  proof (intro ballI)
    fix g j
    assume g: "g \<in> set (if title \<noteq> [] then setdefault_append title (length pre) d else d)"
      and j: "j \<in> set (snd g)"
    have old: "\<And>g'. g' \<in> set d \<Longrightarrow> j \<in> set (snd g') \<Longrightarrow>
                 j < length (pre @ [r]) \<and> has_title ((pre @ [r]) ! j)"
      using Cons.prems(2) by (fastforce simp: nth_append)
    show "j < length (pre @ [r]) \<and> has_title ((pre @ [r]) ! j)"
    proof (cases "title \<noteq> []")
      case False
      with g j old show ?thesis by simp
    next
      case True
      with g have "g \<in> set d \<or>
          g = (title, case map_of d title of None \<Rightarrow> [length pre] | Some vs \<Rightarrow> vs @ [length pre])"
        by (auto simp: setdefault_append_def dest: update_in_set)
      then consider "g \<in> set d" | "j = length pre"
         | vs where "map_of d title = Some vs" "j \<in> set vs"
        using j by (auto split: option.splits)
      then show ?thesis
      proof cases
        case 1
        with j old show ?thesis by blast
      next
        case 2
        with True t show ?thesis by (simp add: has_title_def)
      next
        case 3
        then have "(title, vs) \<in> set d" by (auto dest: map_of_SomeD)
        with 3 old [of "(title, vs)"] show ?thesis by simp
      qed
    qed
  qed
  from Cons.IH [OF rest this] show ?case by simp
qed

lemma index_titles_total:
  "index_titles i recs d = Inr d' \<Longrightarrow>
     group_total d' = group_total d + length (filter has_title recs)"
proof (induction recs arbitrary: i d)
  case Nil
  then show ?case by simp
next
  case (Cons r recs)
  from Cons.prems obtain title where t: "stripped_title r = Inr title"
    and rest: "index_titles (Suc i) recs
                 (if title \<noteq> [] then setdefault_append title i d else d) = Inr d'"
    by (auto split: sum.splits)
  from Cons.IH [OF rest] t show ?case
    by (auto simp: has_title_def setdefault_append_total)
qed

lemma expand_title_stored:
  "expand_title raw emb idxs (ms, es) = Inr (ms', es') \<Longrightarrow> m \<in> set ms' \<Longrightarrow>
     m \<in> set ms \<or> (\<exists>j \<in> set idxs. j < length raw \<and> metadata_record (raw ! j) = Inr m)"
proof (induction idxs arbitrary: ms es)
  case Nil
  then show ?case by simp
next
  case (Cons j idxs)
  from Cons.prems(1) obtain m1 where j: "j < length raw" and m1: "metadata_record (raw ! j) = Inr m1"
    and rest: "expand_title raw emb idxs (ms @ [m1], es @ [emb]) = Inr (ms', es')"
    by (auto split: if_splits sum.splits)
  from Cons.IH [OF rest Cons.prems(2)] j m1 show ?case by auto
qed

lemma expand_titles_stored:
  "expand_titles raw te ti d (ms, es) = Inr (ms', es') \<Longrightarrow> m \<in> set ms' \<Longrightarrow>
     m \<in> set ms \<or>
     (\<exists>g \<in> set d. \<exists>j \<in> set (snd g). j < length raw \<and> metadata_record (raw ! j) = Inr m)"
proof (induction d arbitrary: ti ms es)
  case Nil
  then show ?case by simp
next
  case (Cons g d)
  obtain t idxs where g: "g = (t, idxs)" by (cases g)
  from Cons.prems(1) g obtain ms1 es1 where
    one: "expand_title raw (te ! ti) idxs (ms, es) = Inr (ms1, es1)"
    and rest: "expand_titles raw te (Suc ti) d (ms1, es1) = Inr (ms', es')"
    by (auto split: if_splits sum.splits)
  from Cons.IH [OF rest Cons.prems(2)] expand_title_stored [OF one, of m] g
  show ?case by auto
qed

lemma read_vacancies_length:
  "read_vacancies mx i ls acc = Inr raw \<Longrightarrow> length raw \<le> length acc + length ls"
proof (induction ls arbitrary: i acc)
  case Nil
  then show ?case by simp
next
  case (Cons l ls)
  show ?case
  proof (cases "case mx of None \<Rightarrow> False | Some m \<Rightarrow> m \<noteq> 0 \<and> m \<le> int i")
    case True
    with Cons.prems show ?thesis by simp
  next
    case False
    with Cons.prems obtain r where "l = Some r"
      and "read_vacancies mx (Suc i) ls (acc @ [r]) = Inr raw"
      by (cases l) auto
    from Cons.IH [OF this(2)] show ?thesis by simp
  qed
qed

text \<open>
  C10. When \<open>preprocess\<close> completes, every stored metadata record has an
  \<open>enriched_job_title\<close> that is a non-empty string, not made of whitespace only, and
  the metadata file, the embedding matrix and the index each hold exactly as many rows
  as there are raw records read with such a title, which is at most the number of lines.
  A record whose title is missing, empty or whitespace-only raises nothing: with that
  record inserted anywhere in the source file the build does exactly what it does
  without it.
\<close>

theorem preprocess_omits_blank_titles:
  "(preprocess enc (Some lines) max_records = Inr fs \<longrightarrow>
      (\<exists>raw ms m ix.
          read_vacancies max_records 0 lines [] = Inr raw
        \<and> vacancy_meta_file fs = Some (map Some ms)
        \<and> embeddings_file fs = Some m \<and> faiss_index_file fs = Some ix
        \<and> (\<forall>r \<in> set ms. \<exists>t. py_get r ''enriched_job_title'' (JStr []) = Inr (JStr t)
                              \<and> t \<noteq> [] \<and> py_strip t \<noteq> [])
        \<and> length ms = length (filter has_title raw)
        \<and> length m = length (filter has_title raw)
        \<and> ntotal ix = length (filter has_title raw)
        \<and> length (filter has_title raw) \<le> length lines))
   \<and> (stripped_title b = Inr [] \<longrightarrow>
        preprocess enc (Some (l1 @ Some b # l2)) None = preprocess enc (Some (l1 @ l2)) None)"
proof (intro conjI impI)
  assume "stripped_title b = Inr []"
  then show "preprocess enc (Some (l1 @ Some b # l2)) None = preprocess enc (Some (l1 @ l2)) None"
    by (rule preprocess_insert_blank)
next
  assume ok: "preprocess enc (Some lines) max_records = Inr fs"
  from preprocess_success [OF ok] obtain raw d ms es where
    r: "read_vacancies max_records 0 lines [] = Inr raw"
    and d: "index_titles 0 raw [] = Inr d"
    and e: "expand_titles raw (enc (map fst d)) 0 d ([], []) = Inr (ms, es)"
    and fs: "fs = \<lparr>faiss_index_file = Some \<lparr>dim = length (hd es), vectors = es\<rparr>,
                   embeddings_file = Some es,
                   vacancy_meta_file = Some (map Some ms),
                   unique_titles_file = Some (map fst d)\<rparr>"
    by auto
  have total: "group_total d = length (filter has_title raw)"
    using index_titles_total [OF d] by (simp add: group_total_def)
  have len: "length ms = length (filter has_title raw)" "length es = length (filter has_title raw)"
    using expand_titles_length [OF e] total by simp_all
  have inv: "\<forall>g \<in> set d. \<forall>j \<in> set (snd g). j < length raw \<and> has_title (raw ! j)"
    using index_titles_has_title [of "[]" raw "[]" d] d by simp
  have stored: "\<forall>r \<in> set ms. \<exists>t. py_get r ''enriched_job_title'' (JStr []) = Inr (JStr t)
                              \<and> t \<noteq> [] \<and> py_strip t \<noteq> []"
  proof
    fix m assume "m \<in> set ms"
    with expand_titles_stored [OF e] obtain g j where "g \<in> set d" "j \<in> set (snd g)"
      and m: "metadata_record (raw ! j) = Inr m"
      by fastforce
    with inv have "has_title (raw ! j)" by blast
    with metadata_record_title [OF m] have "has_title m" by (simp add: has_title_def)
    then show "\<exists>t. py_get m ''enriched_job_title'' (JStr []) = Inr (JStr t)
                              \<and> t \<noteq> [] \<and> py_strip t \<noteq> []"
      by (simp add: has_title_iff)
  qed
  have "length (filter has_title raw) \<le> length raw" by simp
  also have "\<dots> \<le> length lines" using read_vacancies_length [OF r] by simp
  finally have le: "length (filter has_title raw) \<le> length lines" .
  show "\<exists>raw ms m ix.
          read_vacancies max_records 0 lines [] = Inr raw
        \<and> vacancy_meta_file fs = Some (map Some ms)
        \<and> embeddings_file fs = Some m \<and> faiss_index_file fs = Some ix
        \<and> (\<forall>r \<in> set ms. \<exists>t. py_get r ''enriched_job_title'' (JStr []) = Inr (JStr t)
                              \<and> t \<noteq> [] \<and> py_strip t \<noteq> [])
        \<and> length ms = length (filter has_title raw)
        \<and> length m = length (filter has_title raw)
        \<and> ntotal ix = length (filter has_title raw)
        \<and> length (filter has_title raw) \<le> length lines"
    using r fs stored len le by (auto simp: ntotal_def)
qed

theorem preprocess_omits_blank_titles_witness:
  "\<exists>fs ms. preprocess example_encoder (Some example_vacancies) None = Inr fs
     \<and> vacancy_meta_file fs = Some (map Some ms)
     \<and> length ms = 3 \<and> length example_vacancies = 4
     \<and> preprocess example_encoder (Some (take 1 example_vacancies @ drop 2 example_vacancies)) None
         = Inr fs"
proof -
  have "\<not> isl (preprocess example_encoder (Some example_vacancies) None)"
    by code_simp
  then obtain fs where fs: "preprocess example_encoder (Some example_vacancies) None = Inr fs"
    by (cases "preprocess example_encoder (Some example_vacancies) None") auto
  have raw: "read_vacancies None 0 example_vacancies [] = Inr (map the example_vacancies)"
    by code_simp
  have n: "length (filter has_title (map the example_vacancies)) = 3"
    by code_simp
  have blank: "stripped_title (JObj [(''identifier'', JStr ''v2''),
                                    (''enriched_job_title'', JStr ''  '')]) = Inr []"
    by code_simp
  have split: "example_vacancies = take 1 example_vacancies
      @ Some (JObj [(''identifier'', JStr ''v2''), (''enriched_job_title'', JStr ''  '')])
      # drop 2 example_vacancies"
    by code_simp
  have len: "length example_vacancies = 4"
    by code_simp
  note T = preprocess_omits_blank_titles
         [of example_encoder example_vacancies None fs
             "JObj [(''identifier'', JStr ''v2''), (''enriched_job_title'', JStr ''  '')]"
             "take 1 example_vacancies" "drop 2 example_vacancies"]
  from T fs obtain raw ms where
    "read_vacancies None 0 example_vacancies [] = Inr raw"
    and ms: "vacancy_meta_file fs = Some (map Some ms)"
    and "length ms = length (filter has_title raw)"
    by blast
  with raw n have three: "length ms = 3" by simp
  from T blank have
    "preprocess example_encoder
       (Some (take 1 example_vacancies
          @ Some (JObj [(''identifier'', JStr ''v2''), (''enriched_job_title'', JStr ''  '')])
          # drop 2 example_vacancies)) None
     = preprocess example_encoder
         (Some (take 1 example_vacancies @ drop 2 example_vacancies)) None"
    by blast
  then have "preprocess example_encoder (Some example_vacancies) None
     = preprocess example_encoder
         (Some (take 1 example_vacancies @ drop 2 example_vacancies)) None"
    unfolding split [symmetric] .
  with fs ms three len show ?thesis by auto
qed

section \<open>Re-ranking\<close>

lemma and_then_Inr:
  "and_then m f = Inr y \<longleftrightarrow> (\<exists>x. m = Inr x \<and> f x = Inr y)"
  by (cases m) auto

lemma score_entry_cases:
  assumes "score_entry F need vi x = Inr r"
  shows "\<exists>t d s. float_field F x ''task_score'' = Inr t
           \<and> float_field F x ''domain_score'' = Inr d
           \<and> float_field F x ''seniority_score'' = Inr s
           \<and> (r \<noteq> None \<longleftrightarrow> 0.40 * t + 0.40 * d + 0.20 * s \<ge> RERANK_THRESHOLD)
           \<and> (\<forall>sd. r = Some sd \<longrightarrow> task_score sd = t \<and> domain_score sd = d
                  \<and> seniority_score sd = s
                  \<and> composite_score sd = 0.40 * t + 0.40 * d + 0.20 * s
                  \<and> sd_vacancy_id sd = vi_vacancy_id vi \<and> role_need_id sd = need_id need)"
proof -
  from assms obtain t d s where
    t: "float_field F x ''task_score'' = Inr t"
    and d: "float_field F x ''domain_score'' = Inr d"
    and s: "float_field F x ''seniority_score'' = Inr s"
    and rest: "(if 0.40 * t + 0.40 * d + 0.20 * s \<ge> RERANK_THRESHOLD
          then and_then (py_get x ''rationale'' (JStr [])) (\<lambda>r.
               and_then (as_str (vi_enriched_job_title vi)) (\<lambda>ejt.
               and_then (as_str r) (\<lambda>r'.
                 Inr (Some \<lparr>sd_vacancy_id = vi_vacancy_id vi,
                            sd_enriched_job_title = ejt,
                            role_need_id = need_id need,
                            task_score = t,
                            domain_score = d,
                            seniority_score = s,
                            composite_score = 0.40 * t + 0.40 * d + 0.20 * s,
                            rationale = r'\<rparr>))))
          else Inr None) = Inr r"
    unfolding score_entry_def Let_def and_then_Inr by blast
  show ?thesis
  proof (cases "0.40 * t + 0.40 * d + 0.20 * s \<ge> RERANK_THRESHOLD")
    case True
    with rest have "and_then (py_get x ''rationale'' (JStr [])) (\<lambda>r.
               and_then (as_str (vi_enriched_job_title vi)) (\<lambda>ejt.
               and_then (as_str r) (\<lambda>r'.
                 Inr (Some \<lparr>sd_vacancy_id = vi_vacancy_id vi,
                            sd_enriched_job_title = ejt,
                            role_need_id = need_id need,
                            task_score = t,
                            domain_score = d,
                            seniority_score = s,
                            composite_score = 0.40 * t + 0.40 * d + 0.20 * s,
                            rationale = r'\<rparr>)))) = Inr r"
      by (simp only: if_True)
    then obtain ejt r' where
      "r = Some \<lparr>sd_vacancy_id = vi_vacancy_id vi,
                            sd_enriched_job_title = ejt,
                            role_need_id = need_id need,
                            task_score = t,
                            domain_score = d,
                            seniority_score = s,
                            composite_score = 0.40 * t + 0.40 * d + 0.20 * s,
                            rationale = r'\<rparr>"
      unfolding and_then_Inr by blast
    with t d s True show ?thesis by auto
  next
    case False
    with rest have "r = None" by simp
    with t d s False show ?thesis by auto
  qed
qed


lemma score_loop_kept:
  "score_loop F need i xs vis out = Inr out' \<Longrightarrow> out' = out @ kept F need (drop i vis) xs"
proof (induction xs arbitrary: i out)
  case Nil
  then show ?case by (simp add: kept_def)
next
  case (Cons x xs)
  show ?case
  proof (cases "i \<ge> length vis")
    case True
    with Cons.prems show ?thesis by (simp add: kept_def)
  next
    case False
    then have dr: "drop i vis = vis ! i # drop (Suc i) vis"
      by (simp add: Cons_nth_drop_Suc)
    from False Cons.prems obtain r where e: "score_entry F need (vis ! i) x = Inr r"
      by (cases "score_entry F need (vis ! i) x") auto
    show ?thesis
    proof (cases r)
      case None
      with e False Cons.prems have "score_loop F need (Suc i) xs vis out = Inr out'" by simp
      from Cons.IH [OF this] e None dr show ?thesis by (simp add: kept_def)
    next
      case (Some sd)
      with e False Cons.prems have "score_loop F need (Suc i) xs vis (out @ [sd]) = Inr out'"
        by simp
      from Cons.IH [OF this] e Some dr show ?thesis by (simp add: kept_def)
    qed
  qed
qed

lemma zip_take_right: "zip (take (length xs) vis) xs = zip vis xs"
proof -
  have "zip (take (length xs) vis) xs = take (length xs) (zip vis xs)"
    by (simp add: take_zip)
  then show ?thesis by simp
qed

lemma kept_member:
  assumes "sd \<in> set (kept F need vis xs)"
  shows "\<exists>vi x. (vi, x) \<in> set (zip vis xs) \<and> score_entry F need vi x = Inr (Some sd)"
proof -
  from assms obtain p where p: "p \<in> set (zip vis xs)"
    and sd: "sd \<in> set (case score_entry F need (fst p) (snd p) of
                          Inr (Some sd) \<Rightarrow> [sd] | _ \<Rightarrow> [])"
    by (auto simp: kept_def)
  from sd have "score_entry F need (fst p) (snd p) = Inr (Some sd)"
    by (cases "score_entry F need (fst p) (snd p)") (auto split: option.splits)
  moreover from p have "(fst p, snd p) \<in> set (zip vis xs)" by simp
  ultimately show ?thesis by blast
qed


lemma kept_take: "kept F need (take (length xs) vis) xs = kept F need vis xs"
  by (simp add: kept_def zip_take_right)

lemma kept_ids:
  assumes "sd \<in> set (kept F need vis xs)"
  shows "sd_vacancy_id sd \<in> set (map vi_vacancy_id (take (length xs) vis))"
proof -
  from kept_member [OF assms] obtain vi x where z: "(vi, x) \<in> set (zip vis xs)"
    and e: "score_entry F need vi x = Inr (Some sd)"
    by blast
  from z have "(vi, x) \<in> set (zip (take (length xs) vis) xs)"
    by (simp add: zip_take_right)
  then have "vi \<in> set (take (length xs) vis)" by (rule set_zip_leftD)
  moreover from score_entry_cases [OF e] have "sd_vacancy_id sd = vi_vacancy_id vi" by auto
  ultimately show ?thesis by auto
qed







lemma scan_records_found:
  "scan_records recs vid = Inr (Some rec) \<Longrightarrow> py_get rec ''identifier'' JNull = Inr (JStr vid)"
  by (induction recs) (auto split: sum.splits if_splits)

lemma scan_records_none:
  "scan_records recs vid = Inr None \<Longrightarrow> r \<in> set recs \<Longrightarrow>
     py_get r ''identifier'' JNull \<noteq> Inr (JStr vid)"
  by (induction recs) (auto split: sum.splits if_splits)

lemma identified_truthy: "py_get rec ''identifier'' JNull = Inr (JStr vid) \<Longrightarrow> py_truthy rec"
  by (cases rec) (auto split: option.splits)

lemma vacancy_info_of_id: "vacancy_info_of hit rec = Inr vi \<Longrightarrow> vi_vacancy_id vi = vacancy_id hit"
  unfolding vacancy_info_of_def and_then_Inr by auto

lemma collect_vacancy_infos_ids:
  "collect_vacancy_infos store batch acc = Inr vis \<Longrightarrow>
   \<forall>h \<in> set batch. \<exists>r \<in> set (s_records store).
       py_get r ''identifier'' JNull = Inr (JStr (vacancy_id h)) \<Longrightarrow>
   map vi_vacancy_id vis = map vi_vacancy_id acc @ map vacancy_id batch"
proof (induction batch arbitrary: acc)
  case Nil
  then show ?case by simp
next
  case (Cons h batch)
  from Cons.prems(1) obtain found where f: "get_record_by_id store (vacancy_id h) = Inr found"
    by (cases "get_record_by_id store (vacancy_id h)") auto
  from Cons.prems(2) obtain r where "r \<in> set (s_records store)"
    and "py_get r ''identifier'' JNull = Inr (JStr (vacancy_id h))" by auto
  with f scan_records_none obtain rec where rec: "found = Some rec"
    by (cases found) (auto simp: get_record_by_id_def)
  with f have t: "py_truthy rec"
    using scan_records_found identified_truthy by (auto simp: get_record_by_id_def)
  from Cons.prems(1) f rec t obtain vi where vi: "vacancy_info_of h rec = Inr vi"
    and rest: "collect_vacancy_infos store batch (acc @ [vi]) = Inr vis"
    by (auto split: sum.splits)
  from Cons.IH [OF rest] Cons.prems(2) vacancy_info_of_id [OF vi] show ?case by simp
qed

lemma score_loop_total:
  "\<forall>j < length xs. i + j < length vis \<longrightarrow> (\<exists>r. score_entry F need (vis ! (i + j)) (xs ! j) = Inr r)
     \<Longrightarrow> \<exists>out'. score_loop F need i xs vis out = Inr out'"
proof (induction xs arbitrary: i out)
  case Nil
  then show ?case by simp
next
  case (Cons x xs)
  show ?case
  proof (cases "i \<ge> length vis")
    case True
    then show ?thesis by simp
  next
    case False
    with Cons.prems obtain r where r: "score_entry F need (vis ! i) x = Inr r"
      by fastforce
    have "\<forall>j < length xs. Suc i + j < length vis \<longrightarrow>
            (\<exists>r. score_entry F need (vis ! (Suc i + j)) (xs ! j) = Inr r)"
    proof (intro allI impI)
      fix j assume "j < length xs" "Suc i + j < length vis"
      with Cons.prems [rule_format, of "Suc j"]
      show "\<exists>r. score_entry F need (vis ! (Suc i + j)) (xs ! j) = Inr r" by simp
    qed
    from Cons.IH [OF this] r False show ?thesis by (cases r) auto
  qed
qed

text \<open>
  C8. When the scorer returns fewer score objects than the batch has vacancies (each
  vacancy having a record in the store), the batch appends the details of the first
  \<open>len(result)\<close> vacancies only: the vacancies beyond yield no detail, no exception is
  raised for them, and the scorer is called once.
\<close>

theorem rerank_short_reply:
  assumes vis: "collect_vacancy_infos store batch [] = Inr vis"
    and present: "\<forall>h \<in> set batch. \<exists>r \<in> set (s_records store).
                    py_get r ''identifier'' JNull = Inr (JStr (vacancy_id h))"
    and reply: "ask n = Inr result" "as_score_list result = Some xs"
    and short: "length xs < length batch"
    and wf: "\<forall>j < length xs. \<exists>r. score_entry F need (vis ! j) (xs ! j) = Inr r"
  shows "map vi_vacancy_id vis = map vacancy_id batch
       \<and> rerank_batch F ask need store batch (n, out)
           = Inr (Suc n, out @ kept F need (take (length xs) vis) xs)
       \<and> (\<forall>sd \<in> set (kept F need (take (length xs) vis) xs).
             sd_vacancy_id sd \<in> set (map vacancy_id (take (length xs) batch)))"
proof -
  have ids: "map vi_vacancy_id vis = map vacancy_id batch"
    using collect_vacancy_infos_ids [OF vis present] by simp
  then have len: "length vis = length batch"
    by (metis length_map)
  with short have ne: "vis \<noteq> []" by auto
  from wf have "\<forall>j < length xs. 0 + j < length vis \<longrightarrow>
                  (\<exists>r. score_entry F need (vis ! (0 + j)) (xs ! j) = Inr r)" by simp
  from score_loop_total [OF this] obtain out' where
    l: "score_loop F need 0 xs vis out = Inr out'" by blast
  from score_loop_kept [OF l] have "out' = out @ kept F need (take (length xs) vis) xs"
    by (simp add: kept_take)
  with l vis ne reply have run:
    "rerank_batch F ask need store batch (n, out)
       = Inr (Suc n, out @ kept F need (take (length xs) vis) xs)"
    by (simp add: rerank_batch_def)
  have "\<forall>sd \<in> set (kept F need (take (length xs) vis) xs).
          sd_vacancy_id sd \<in> set (map vacancy_id (take (length xs) batch))"
  proof
    fix sd assume "sd \<in> set (kept F need (take (length xs) vis) xs)"
    then have "sd \<in> set (kept F need vis xs)" by (simp add: kept_take)
    from kept_ids [OF this] have "sd_vacancy_id sd \<in> set (take (length xs) (map vi_vacancy_id vis))"
      by (simp add: take_map)
    with ids show "sd_vacancy_id sd \<in> set (map vacancy_id (take (length xs) batch))"
      by (simp add: take_map)
  qed
  with ids run show ?thesis by blast
qed

theorem rerank_short_reply_witness:
  "\<exists>out. rerank_batch (\<lambda>s. None) (\<lambda>n. Inr example_reply_short) example_need example_store
             example_batch (0, []) = Inr (Suc 0, out)
     \<and> map sd_vacancy_id out = [''v1''] \<and> length example_batch = 3"
proof -
  have "\<not> isl (collect_vacancy_infos example_store example_batch [])"
    by code_simp
  then obtain vis where vis: "collect_vacancy_infos example_store example_batch [] = Inr vis"
    by (cases "collect_vacancy_infos example_store example_batch []") auto
  have present: "\<forall>h \<in> set example_batch. \<exists>r \<in> set (s_records example_store).
                    py_get r ''identifier'' JNull = Inr (JStr (vacancy_id h))"
    by (simp add: example_batch_def example_store_def example_hit_def)
  have xs: "as_score_list example_reply_short = Some [example_scores 5 5 5]"
    by (simp add: as_score_list_def example_reply_short_def)
  have short: "length [example_scores 5 5 5] < length example_batch"
    by (simp add: example_batch_def)
  have "\<not> isl (score_entry (\<lambda>s. None) example_need
                  (projr (collect_vacancy_infos example_store example_batch []) ! 0)
                  (example_scores 5 5 5))"
    by code_simp
  with vis have "\<exists>r. score_entry (\<lambda>s. None) example_need (vis ! 0) (example_scores 5 5 5) = Inr r"
    by (cases "score_entry (\<lambda>s. None) example_need (vis ! 0) (example_scores 5 5 5)") auto
  then have wf: "\<forall>j < length [example_scores 5 5 5].
        \<exists>r. score_entry (\<lambda>s. None) example_need (vis ! j) ([example_scores 5 5 5] ! j) = Inr r"
    by simp
  note run = rerank_short_reply
      [where F = "\<lambda>s. None" and ask = "\<lambda>n. Inr example_reply_short" and n = 0
         and need = example_need and out = "[]" and result = example_reply_short,
       OF vis present refl xs short wf, THEN conjunct2, THEN conjunct1]
  have "map sd_vacancy_id
          (snd (projr (rerank_batch (\<lambda>s. None) (\<lambda>n. Inr example_reply_short) example_need
                         example_store example_batch (0, [])))) = [''v1'']"
    by code_simp
  with run have ids: "map sd_vacancy_id
      ([] @ kept (\<lambda>s. None) example_need
              (take (length [example_scores 5 5 5]) vis) [example_scores 5 5 5]) = [''v1'']"
    by simp
  have three: "length example_batch = 3" by (simp add: example_batch_def)
  show ?thesis
    by (rule exI, intro conjI) (rule run ids three)+
qed

section \<open>Dual-channel retrieval\<close>




























section \<open>Clustering\<close>

lemma SenioritySignal_unbound: "global_name ''SenioritySignal'' v = Inl NameError"
  by (simp add: global_name_def phase4_match_globals_def)

lemma RoleCategory_bound: "global_name ''RoleCategory'' v = Inr v"
  by (simp add: global_name_def phase4_match_globals_def)

lemma single_title_role_raises:
  "single_title_role list_of_set role_needs m title = Inl NameError"
  by (simp add: single_title_role_def Let_def SenioritySignal_unbound RoleCategory_bound)

lemma cluster_role_raises:
  "cluster_role list_of_set role_needs m unique_titles title_embeddings grp =
     (if list_all (\<lambda>i. i < length unique_titles \<and> i < length title_embeddings) (snd grp)
      then Inl NameError else Inl IndexError)"
  by (simp add: cluster_role_def Let_def SenioritySignal_unbound RoleCategory_bound)


lemma setdefault_append_keys:
  "map fst (setdefault_append k v d) = (if k \<in> fst ` set d then map fst d else map fst d @ [k])"
  unfolding setdefault_append_def
  by (induction d) auto

lemma setdefault_append_nonempty: "setdefault_append k v d \<noteq> []"
  unfolding setdefault_append_def by (cases d) auto

lemma group_fold_nonempty:
  "ps \<noteq> [] \<or> d \<noteq> [] \<Longrightarrow> foldl (\<lambda>d p. setdefault_append (snd p) (fst p) d) d ps \<noteq> []"
proof (induction ps arbitrary: d)
  case Nil
  then show ?case by simp
next
  case (Cons p ps)
  have "setdefault_append (snd p) (fst p) d \<noteq> []" by (rule setdefault_append_nonempty)
  with Cons.IH [of "setdefault_append (snd p) (fst p) d"] show ?case by simp
qed

lemma group_fold_below:
  "indices_below n d \<Longrightarrow> \<forall>p \<in> set ps. fst p < n \<Longrightarrow>
     indices_below n (foldl (\<lambda>d p. setdefault_append (snd p) (fst p) d) d ps)"
proof (induction ps arbitrary: d)
  case Nil
  then show ?case by simp
next
  case (Cons p ps)
  from Cons.prems have "indices_below n (setdefault_append (snd p) (fst p) d)"
    by (simp add: setdefault_append_below)
  from Cons.IH [OF this] Cons.prems(2) show ?case by simp
qed

lemma group_labels_facts:
  "labels \<noteq> [] \<Longrightarrow> group_labels labels \<noteq> [] \<and> indices_below (length labels) (group_labels labels)"
proof -
  assume ne: "labels \<noteq> []"
  have "\<forall>p \<in> set (zip [0..<length labels] labels). fst p < length labels"
    by (auto dest: set_zip_leftD)
  moreover have "indices_below (length labels) ([] :: (int \<times> nat list) list)"
    by (simp add: indices_below_def)
  moreover from ne have "zip [0..<length labels] labels \<noteq> []"
    by (cases labels) (auto simp: upt_rec)
  ultimately show ?thesis
    unfolding group_labels_def
    using group_fold_nonempty [of "zip [0..<length labels] labels" "[]"]
      group_fold_below [of "length labels" "[]" "zip [0..<length labels] labels"]
    by blast
qed

lemma add_scored_keys:
  "map fst (vacancy_need_map (add_scored hs m sd))
     = (if sd_enriched_job_title sd \<in> set (map fst (vacancy_need_map m))
        then map fst (vacancy_need_map m)
        else map fst (vacancy_need_map m) @ [sd_enriched_job_title sd])"
  by (simp add: add_scored_def Let_def setdefault_append_keys)

lemma scored_fold_keys:
  "distinct (map fst (vacancy_need_map m)) \<Longrightarrow>
     distinct (map fst (vacancy_need_map (foldl (add_scored hs) m sds)))
     \<and> set (map fst (vacancy_need_map (foldl (add_scored hs) m sds)))
         = set (map fst (vacancy_need_map m)) \<union> set (map sd_enriched_job_title sds)"
proof (induction sds arbitrary: m)
  case Nil
  then show ?case by simp
next
  case (Cons sd sds)
  have d: "distinct (map fst (vacancy_need_map (add_scored hs m sd)))"
    using Cons.prems by (simp add: add_scored_keys)
  have s: "set (map fst (vacancy_need_map (add_scored hs m sd)))
             = insert (sd_enriched_job_title sd) (set (map fst (vacancy_need_map m)))"
    by (auto simp: add_scored_keys)
  from Cons.IH [OF d] s show ?case by auto
qed

lemma results_fold_keys:
  "distinct (map fst (vacancy_need_map m)) \<Longrightarrow>
     distinct (map fst (vacancy_need_map
        (foldl (\<lambda>m rr. foldl (add_scored (hits rr)) m (scored rr)) m rrs)))
     \<and> set (map fst (vacancy_need_map
        (foldl (\<lambda>m rr. foldl (add_scored (hits rr)) m (scored rr)) m rrs)))
         = set (map fst (vacancy_need_map m))
           \<union> set (map sd_enriched_job_title (concat (map scored rrs)))"
proof (induction rrs arbitrary: m)
  case Nil
  then show ?case by simp
next
  case (Cons rr rrs)
  from scored_fold_keys [OF Cons.prems, of "hits rr" "scored rr"]
  have d: "distinct (map fst (vacancy_need_map (foldl (add_scored (hits rr)) m (scored rr))))"
    and s: "set (map fst (vacancy_need_map (foldl (add_scored (hits rr)) m (scored rr))))
         = set (map fst (vacancy_need_map m)) \<union> set (map sd_enriched_job_title (scored rr))"
    by auto
  from Cons.IH [OF d] s show ?case by auto
qed

lemma unique_titles_facts:
  "distinct (map fst (vacancy_need_map (collect_titles rrs)))
   \<and> set (map fst (vacancy_need_map (collect_titles rrs))) = surviving_titles rrs"
  unfolding collect_titles_def surviving_titles_def
  using results_fold_keys
    [of "\<lparr>vacancy_need_map = [], vacancy_ids_map = [], vacancy_scores = [],
          vacancy_channels = []\<rparr>" rrs]
  by simp

lemma unique_titles_length:
  "length (map fst (vacancy_need_map (collect_titles rrs))) = card (surviving_titles rrs)"
  using unique_titles_facts [of rrs] distinct_card by fastforce

lemma example_encoder_length: "length (example_encoder ts) = length ts"
  by (simp add: example_encoder_def)

lemma example_labels_length: "length (example_labels rows) = length rows"
  by (simp add: example_labels_def)

lemma argmin_first:
  assumes "xs \<noteq> []"
  shows "argmin xs < length xs \<and> xs ! argmin xs = Min (set xs)
       \<and> (\<forall>j < argmin xs. xs ! j \<noteq> Min (set xs))"
proof -
  let ?P = "\<lambda>x. x \<noteq> Min (set xs)"
  from assms have m: "Min (set xs) \<in> set xs" by (simp add: Min_in)
  have lt: "length (takeWhile ?P xs) < length xs"
  proof (rule ccontr)
    assume "\<not> length (takeWhile ?P xs) < length xs"
    with length_takeWhile_le [of ?P xs] have "length (takeWhile ?P xs) = length xs" by simp
    with takeWhile_eq_take [of ?P xs] have "takeWhile ?P xs = xs" by simp
    then have "\<forall>x \<in> set xs. ?P x" by (simp add: takeWhile_eq_all_conv)
    with m show False by blast
  qed
  from nth_length_takeWhile [OF lt] have at: "xs ! length (takeWhile ?P xs) = Min (set xs)"
    by simp
  have before: "\<forall>j < length (takeWhile ?P xs). xs ! j \<noteq> Min (set xs)"
  proof (intro allI impI)
    fix j assume j: "j < length (takeWhile ?P xs)"
    then have "takeWhile ?P xs ! j \<in> set (takeWhile ?P xs)" by simp
    then have "?P (takeWhile ?P xs ! j)" by (rule set_takeWhileD [THEN conjunct2])
    with takeWhile_nth [OF j] show "xs ! j \<noteq> Min (set xs)" by simp
  qed
  from lt at before show ?thesis by (simp add: argmin_def)
qed

lemma sort_by_confidence:
  "sorted_wrt (\<lambda>a b. confidence a \<ge> confidence b) (sort_key (\<lambda>r. - confidence r) roles)
   \<and> filter (\<lambda>r. confidence r = c) (sort_key (\<lambda>r. - confidence r) roles)
       = filter (\<lambda>r. confidence r = c) roles"
proof -
  have "sorted (map (\<lambda>r. - confidence r) (sort_key (\<lambda>r. - confidence r) roles))"
    by (rule sorted_sort_key)
  then have a: "sorted_wrt (\<lambda>a b. confidence a \<ge> confidence b)
                  (sort_key (\<lambda>r. - confidence r) roles)"
    by (simp add: sorted_wrt_map sorted_wrt_iff_nth_less)
  have "filter (\<lambda>r. - confidence r = - c) (sort_key (\<lambda>r. - confidence r) roles)
          = filter (\<lambda>r. - confidence r = - c) roles"
    by (rule sort_key_stable)
  with a show ?thesis by simp
qed

text \<open>
  C4. When exactly one distinct enriched title survives re-ranking,
  \<open>_cluster_into_roles\<close> returns no role: it raises NameError, because the default
  seniority of the role is written \<open>SenioritySignal.experienced\<close> and the module does not
  import \<open>SenioritySignal\<close>.
\<close>

theorem single_title_raises_NameError:
  assumes "surviving_titles retrieval_results = {title}"
  shows "cluster_into_roles list_of_set encode_titles fit_predict role_needs retrieval_results
           = Inl NameError"
proof -
  from assms unique_titles_length [of retrieval_results]
  have "length (map fst (vacancy_need_map (collect_titles retrieval_results))) = 1"
    by simp
  then show ?thesis
    by (auto simp: cluster_into_roles_def Let_def single_title_role_raises)
qed

theorem single_title_raises_NameError_witness:
  "surviving_titles [example_result_one] = {''Nurse''}
   \<and> cluster_into_roles remdups example_encoder example_labels [example_need]
        [example_result_one] = Inl NameError"
proof -
  have one: "surviving_titles [example_result_one] = {''Nurse''}"
    by (simp add: surviving_titles_def example_result_one_def example_detail_def)
  from single_title_raises_NameError [OF one] one show ?thesis by blast
qed

text \<open>
  C5. With more than one surviving title, the encoder giving one row and the clustering
  one label for every title, \<open>_cluster_into_roles\<close> raises NameError while it builds
  the role of the first cluster, for the same unbound name: no cluster gets a canonical
  title or alternative titles. What the code computes before it raises is the first
  position of the least distance to the centroid (lemma \<open>argmin_first\<close>).
\<close>

theorem multi_title_raises_NameError:
  assumes "card (surviving_titles retrieval_results) > 1"
    and "length (encode_titles (map fst (vacancy_need_map (collect_titles retrieval_results))))
           = card (surviving_titles retrieval_results)"
    and "length (fit_predict
           (encode_titles (map fst (vacancy_need_map (collect_titles retrieval_results)))))
           = card (surviving_titles retrieval_results)"
  shows "cluster_into_roles list_of_set encode_titles fit_predict role_needs retrieval_results
           = Inl NameError"
proof -
  let ?U = "map fst (vacancy_need_map (collect_titles retrieval_results))"
  let ?L = "fit_predict (encode_titles ?U)"
  have len: "length ?U = card (surviving_titles retrieval_results)"
    by (rule unique_titles_length)
  with assms have "?L \<noteq> []" by auto
  from group_labels_facts [OF this] obtain g gs where
    g: "group_labels ?L = g # gs" and b: "indices_below (length ?L) (group_labels ?L)"
    by (cases "group_labels ?L") auto
  from b g have "\<forall>j \<in> set (snd g). j < length ?L" by (auto simp: indices_below_def)
  with assms len have "list_all (\<lambda>i. i < length ?U \<and> i < length (encode_titles ?U)) (snd g)"
    by (simp add: list_all_iff)
  then have "cluster_role list_of_set role_needs (collect_titles retrieval_results) ?U
               (encode_titles ?U) g = Inl NameError"
    by (simp add: cluster_role_raises)
  with g have "clusters_loop list_of_set role_needs (collect_titles retrieval_results) ?U
               (encode_titles ?U) (group_labels ?L) ([], []) = Inl NameError"
    by simp
  moreover from len assms(1) have "?U \<noteq> []" "length ?U \<noteq> 1" by auto
  ultimately show ?thesis
    by (simp add: cluster_into_roles_def Let_def del: length_map)
qed

theorem multi_title_raises_NameError_witness:
  "card (surviving_titles [example_result_two]) = 2
   \<and> cluster_into_roles remdups example_encoder example_labels [example_need]
        [example_result_two] = Inl NameError"
proof -
  have two: "card (surviving_titles [example_result_two]) = 2"
    by (simp add: surviving_titles_def example_result_two_def example_detail_def)
  then have more: "card (surviving_titles [example_result_two]) > 1" by simp
  have enc: "length (example_encoder
               (map fst (vacancy_need_map (collect_titles [example_result_two]))))
             = card (surviving_titles [example_result_two])"
    using unique_titles_length [of "[example_result_two]"]
    by (simp only: example_encoder_length)
  have lab: "length (example_labels (example_encoder
               (map fst (vacancy_need_map (collect_titles [example_result_two])))))
             = card (surviving_titles [example_result_two])"
    using enc by (simp only: example_labels_length)
  from multi_title_raises_NameError
         [where encode_titles = example_encoder and fit_predict = example_labels,
          OF more enc lab] two
  show ?thesis by blast
qed



end
